theory Spec2Isabelle
  imports Main "HOL-Library.Word"
begin

unbundle bit_operations_syntax

section \<open>Trafilytics: anonymised audience counting (src/main.cpp)\<close>

text \<open>
  The firmware is one translation unit with global variables, a \<open>setup\<close> routine and
  a polling \<open>loop\<close>.  The globals become one record, every routine takes the record and
  returns the updated one, and the answers of the collaborators (WiFi driver, modem clock,
  GPS, remote database, \<open>millis\<close>) are the fields of an environment record that the
  routine reads.  Output on the serial console and the SD-card log do not feed back
  into any global and are left out.
\<close>

subsection \<open>Machine types\<close>

type_synonym u8 = "8 word"
type_synonym u32 = "32 word"
type_synonym u64 = "64 word"

subsection \<open>Configuration (the \<open>#define\<close> lines)\<close>

definition SCAN_INTERVAL_MS :: u32 where
  "SCAN_INTERVAL_MS = 5000"

definition SCANS_PER_UPLOAD :: u32 where
  "SCANS_PER_UPLOAD = 10"

definition MAX_NETWORKS_PER_SCAN :: int where
  "MAX_NETWORKS_PER_SCAN = 20"

subsection \<open>Global state\<close>

text \<open>
  The fields are the globals of the source, under their names.  \<open>databaseSet\<close> is not
  a global of the program: it is the trace of the \<open>Database.set\<close> calls issued so
  far, each with its path, its JSON document and its task identifier, newest last.
\<close>

record system =
  wifiNetworksThisCycle :: u32
  repeatedWifiNetworks :: u32
  uniqueWifiNetworks :: u32
  impressionCount :: u32
  totalWifiNetworks :: u32
  totalScansPerformed :: u32
  totalReportsGenerated :: u32
  currentCycleHashes :: "string set"
  previousCycleHashes :: "string set"
  lastScanTime :: u32
  scanCounter :: u32
  reportCounter :: u32
  systemStartTime :: u32
  ephemeralSalt :: u32
  scanErrors :: u32
  hashCollisions :: u32
  deviceMacAddress :: string
  combinedBillboardId :: string
  deviceAccessKey :: string
  currentDateTime :: string
  currentDate :: string
  dailyImpressions :: u32
  gpsLatitude :: string
  gpsLongitude :: string
  gpsFixAcquired :: bool
  totalDataSent :: u32
  dailyDataSent :: u32
  sdCardAvailable :: bool
  deviceInfoUploaded :: bool
  databaseSet :: "(string \<times> string \<times> string) list"

subsection \<open>The anonymiser: \<open>hashMAC\<close>\<close>

definition FNV_OFFSET_BASIS :: u64 where
  "FNV_OFFSET_BASIS = 0xcbf29ce484222325"

definition FNV_PRIME :: u64 where
  "FNV_PRIME = 0x100000001b3"

text \<open>
  The two \<open>for\<close> loops of \<open>hashMAC\<close>, \<open>hash ^= p[i]; hash *= FNV_PRIME\<close> for
  \<open>i\<close> from its start value up to the bound \<open>n\<close>: \<open>p\<close> is the byte array read,
  \<open>n\<close> is 6 for the identifier and 4 for the salt.
\<close>

function hashLoop :: "u8 list \<Rightarrow> nat \<Rightarrow> nat \<Rightarrow> u64 \<Rightarrow> u64" where
  "hashLoop p n i hash =
     (if i < n then hashLoop p n (i + 1) ((hash XOR ucast (p ! i)) * FNV_PRIME) else hash)"
  by pat_completeness auto
termination
  by (relation "measure (\<lambda>(p, n, i, hash). n - i)") auto

text \<open>
  \<open>(uint8_t* )&ephemeralSalt\<close>: the four bytes of the salt as they lie in memory.  The
  target (ESP32) is little-endian, so byte 0 is the least significant one.
\<close>

definition saltBytes :: "u32 \<Rightarrow> u8 list" where
  "saltBytes salt = map (\<lambda>i. ucast (drop_bit (8 * i) salt)) [0, 1, 2, 3]"

text \<open>\<open>sprintf(hexBuffer, "%016llx", hash)\<close>: sixteen lower-case hexadecimal digits.\<close>

definition hexDigit :: "nat \<Rightarrow> char" where
  "hexDigit d = (''0123456789abcdef'') ! d"

definition hex16 :: "u64 \<Rightarrow> string" where
  "hex16 h = map (\<lambda>i. hexDigit (unat (drop_bit (4 * (15 - i)) h AND 0xF))) [0..<16]"

text \<open>
  \<open>hashMAC\<close> reads the global \<open>ephemeralSalt\<close> and the six bytes its argument points
  to; the salt is passed explicitly.
\<close>

definition hashValue :: "u32 \<Rightarrow> u8 list \<Rightarrow> u64" where
  "hashValue salt macAddr =
     hashLoop (saltBytes salt) 4 0 (hashLoop macAddr 6 0 FNV_OFFSET_BASIS)"

definition hashMAC :: "u32 \<Rightarrow> u8 list \<Rightarrow> string" where
  "hashMAC salt macAddr = hex16 (hashValue salt macAddr)"



subsection \<open>The collaborators\<close>

text \<open>
  The WiFi driver after one \<open>WiFi.scanNetworks()\<close>: the value the call returned (the
  number of access points found, or a negative status code) and the table
  \<open>WiFi.BSSID(i)\<close> of the six-byte identifiers found.  \<open>WiFi.SSID(i)\<close> and
  \<open>WiFi.RSSI(i)\<close> are only printed.
\<close>

record wifi =
  scanNetworks :: int
  BSSID :: "nat \<Rightarrow> u8 list"

text \<open>
  What the outside world answers during one pass of \<open>loop\<close>: the clock \<open>millis()\<close>,
  the WiFi driver, \<open>app.ready()\<close>, \<open>updateGPSLocation()\<close> (the new latitude and
  longitude when it returns true), \<open>getTimeFromSIM7600()\<close>, and
  \<open>Database.get<int>\<close> at a path: the integer returned, and the code of
  \<open>aClient.lastError()\<close> after the call.
\<close>

record environment =
  millis :: u32
  WiFi :: wifi
  appReady :: bool
  updateGPSLocation :: "(string \<times> string) option"
  getTimeFromSIM7600 :: string
  databaseGet :: "string \<Rightarrow> int \<times> int"

subsection \<open>\<open>performWiFiScan\<close>\<close>

text \<open>
  The body of the \<open>for\<close> loop for one hashed identifier.  The loop works on the
  globals and on the locals \<open>uniqueInThisScan\<close> and \<open>repeatedInThisScan\<close>.
\<close>

definition scanBody :: "string \<Rightarrow> system \<times> int \<times> int \<Rightarrow> system \<times> int \<times> int" where
  "scanBody hashedBSSID = (\<lambda>(s, uniqueInThisScan, repeatedInThisScan).
     if hashedBSSID \<in> currentCycleHashes s then
       (s, uniqueInThisScan, repeatedInThisScan + 1)
     else
       (let s1 = s\<lparr>currentCycleHashes := insert hashedBSSID (currentCycleHashes s)\<rparr>;
            s2 = (if hashedBSSID \<notin> previousCycleHashes s1
                  then s1\<lparr>totalWifiNetworks := totalWifiNetworks s1 + 1\<rparr> else s1)
        in (s2, uniqueInThisScan + 1, repeatedInThisScan)))"

function scanLoop :: "wifi \<Rightarrow> int \<Rightarrow> int \<Rightarrow> system \<times> int \<times> int \<Rightarrow> system \<times> int \<times> int" where
  "scanLoop w processCount i acc =
     (if i < processCount then
        scanLoop w processCount (i + 1)
          (scanBody (hashMAC (ephemeralSalt (fst acc)) (BSSID w (nat i))) acc)
      else acc)"
  by pat_completeness auto
termination
  by (relation "measure (\<lambda>(w, processCount, i, acc). nat (processCount - i))") auto

definition performWiFiScan :: "wifi \<Rightarrow> system \<Rightarrow> system" where
  "performWiFiScan w s =
     (let networksFound = scanNetworks w;
          s1 = s\<lparr>totalScansPerformed := totalScansPerformed s + 1\<rparr>
      in if networksFound < 0 then s1\<lparr>scanErrors := scanErrors s1 + 1\<rparr>
         else if networksFound = 0 then s1
         else
           (let s2 = s1\<lparr>impressionCount := impressionCount s1 + word_of_int networksFound\<rparr>;
                processCount = (if networksFound > MAX_NETWORKS_PER_SCAN
                                then MAX_NETWORKS_PER_SCAN else networksFound);
                (s3, uniqueInThisScan, repeatedInThisScan) = scanLoop w processCount 0 (s2, 0, 0)
            in s3\<lparr>wifiNetworksThisCycle := wifiNetworksThisCycle s3 + word_of_int networksFound,
                   uniqueWifiNetworks := uniqueWifiNetworks s3 + word_of_int uniqueInThisScan,
                   repeatedWifiNetworks := repeatedWifiNetworks s3 + word_of_int repeatedInThisScan\<rparr>))"

subsection \<open>Strings\<close>

text \<open>\<open>String::indexOf(char)\<close>: the first position of the character, or -1.\<close>

fun indexOf :: "string \<Rightarrow> char \<Rightarrow> int" where
  "indexOf [] c = -1"
| "indexOf (x # xs) c =
     (if x = c then 0 else (let k = indexOf xs c in if k < 0 then -1 else k + 1))"

definition extractDateFromDateTime :: "string \<Rightarrow> string" where
  "extractDateFromDateTime dateTime =
     (let spaceIndex = indexOf dateTime (CHR '' '')
      in if spaceIndex > 0 then take (nat spaceIndex) dateTime else ''Unknown'')"

text \<open>\<open>String(n)\<close> for an unsigned number: its decimal digits.\<close>

definition decDigit :: "nat \<Rightarrow> char" where
  "decDigit d = (''0123456789'') ! d"

fun decimal :: "nat \<Rightarrow> string" where
  "decimal n = (if n < 10 then [decDigit n] else decimal (n div 10) @ [decDigit (n mod 10)])"

definition buildDailyDataJSON :: "system \<Rightarrow> string" where
  "buildDailyDataJSON s =
     ''{'' @
     ''\"billboard_id\":\"'' @ combinedBillboardId s @ ''\",'' @
     ''\"date\":\"'' @ currentDate s @ ''\",'' @
     ''\"daily_impressions\":'' @ decimal (unat (dailyImpressions s)) @ '','' @
     ''\"last_updated\":\"'' @ currentDateTime s @ ''\"'' @
     ''}''"

subsection \<open>\<open>reportAnalytics\<close>\<close>

text \<open>
  The day-change block (source lines 545 to 564), entered once a valid time has been read:
  \<open>newDate\<close> is the date just extracted.
\<close>

definition dayChange :: "environment \<Rightarrow> string \<Rightarrow> system \<Rightarrow> system" where
  "dayChange e newDate s =
     (if newDate \<noteq> currentDate s \<and> length (currentDate s) > 0 then
        (let s1 = s\<lparr>currentDate := newDate\<rparr>;
             impressionsPath = ''/devices/'' @ combinedBillboardId s1 @ ''/data/'' @
                               currentDate s1 @ ''/daily_impressions'';
             (existingImpressions, errorCode) = databaseGet e impressionsPath
         in if errorCode = 0 \<and> existingImpressions > 0
            then s1\<lparr>dailyImpressions := word_of_int existingImpressions\<rparr>
            else s1\<lparr>dailyImpressions := 0\<rparr>)
      else if length (currentDate s) = 0 then s\<lparr>currentDate := newDate\<rparr>
      else s)"

text \<open>The upload block (source lines 567 to 599).\<close>

definition upload :: "system \<Rightarrow> system" where
  "upload s =
     (if length (currentDate s) > 0 \<and> currentDate s \<noteq> ''Unknown'' then
        (let json = buildDailyDataJSON s;
             path = ''/devices/'' @ combinedBillboardId s @ ''/data/'' @ currentDate s;
             locationPath = ''/devices/'' @ combinedBillboardId s @ ''/device_info/Location'';
             locationJson = ''{\"Lat\":\"'' @ gpsLatitude s @ ''\",\"Long\":\"'' @
                            gpsLongitude s @ ''\"}''
         in s\<lparr>databaseSet := databaseSet s @
                  [(path, json, ''dailyDataTask''),
                   (locationPath, locationJson, ''locationUpdateTask'')],
                totalDataSent := totalDataSent s + of_nat (length json) +
                  of_nat (length locationJson) + 400\<rparr>)
      else s)"

definition reportAnalytics :: "environment \<Rightarrow> system \<Rightarrow> system" where
  "reportAnalytics e s =
     (let s1 = s\<lparr>reportCounter := reportCounter s + 1,
                  totalReportsGenerated := totalReportsGenerated s + 1,
                  dailyImpressions := dailyImpressions s + impressionCount s\<rparr>;
          s2 = (case updateGPSLocation e of
                  Some (lat, lon) \<Rightarrow>
                    s1\<lparr>gpsLatitude := lat, gpsLongitude := lon, gpsFixAcquired := True\<rparr>
                | None \<Rightarrow> s1)
      in if appReady e then
           (let s3 = s2\<lparr>currentDateTime := getTimeFromSIM7600 e\<rparr>;
                newDate = extractDateFromDateTime (currentDateTime s3)
            in if newDate \<noteq> ''Unknown'' \<and> currentDateTime s3 \<noteq> ''Time unavailable''
               then upload (dayChange e newDate s3)
               else s3)
         else s2)"

subsection \<open>\<open>loop\<close>\<close>

text \<open>The statements under the comment \<open>Reset cycle tracking\<close> (source lines 398 to 405).\<close>

definition resetCycle :: "system \<Rightarrow> system" where
  "resetCycle s =
     s\<lparr>previousCycleHashes := currentCycleHashes s,
       currentCycleHashes := {},
       wifiNetworksThisCycle := 0,
       repeatedWifiNetworks := 0,
       uniqueWifiNetworks := 0,
       impressionCount := 0,
       scanCounter := 0\<rparr>"

text \<open>
  One pass of \<open>loop\<close>.  \<open>ESP.restart()\<close> does not return: the process ends, and the
  pass has no successor state (\<open>None\<close>).
\<close>

definition loop :: "environment \<Rightarrow> system \<Rightarrow> system option" where
  "loop e s =
     (let currentTime = millis e
      in if currentTime - systemStartTime s \<ge> 43200000 then None
         else if currentTime - lastScanTime s \<ge> SCAN_INTERVAL_MS then
           (let s1 = performWiFiScan (WiFi e) s;
                s2 = s1\<lparr>lastScanTime := currentTime\<rparr>;
                s3 = s2\<lparr>scanCounter := scanCounter s2 + 1\<rparr>
            in if scanCounter s3 \<ge> SCANS_PER_UPLOAD
               then Some (resetCycle (reportAnalytics e s3))
               else Some s3)
         else Some s)"

subsection \<open>The state at power-on\<close>

text \<open>The initialisers of the globals (source lines 64 to 109); nothing has been published.\<close>

definition bootState :: system where
  "bootState =
     \<lparr>wifiNetworksThisCycle = 0, repeatedWifiNetworks = 0, uniqueWifiNetworks = 0,
      impressionCount = 0, totalWifiNetworks = 0, totalScansPerformed = 0,
      totalReportsGenerated = 0, currentCycleHashes = {}, previousCycleHashes = {},
      lastScanTime = 0, scanCounter = 0, reportCounter = 0, systemStartTime = 0,
      ephemeralSalt = 0, scanErrors = 0, hashCollisions = 0,
      deviceMacAddress = [], combinedBillboardId = [], deviceAccessKey = [],
      currentDateTime = [], currentDate = [], dailyImpressions = 0,
      gpsLatitude = ''0.0'', gpsLongitude = ''0.0'', gpsFixAcquired = False,
      totalDataSent = 0, dailyDataSent = 0, sdCardAvailable = False,
      deviceInfoUploaded = False, databaseSet = []\<rparr>"

subsection \<open>Notions used to state the properties\<close>

text \<open>
  The fingerprints one call of \<open>performWiFiScan\<close> computes, in the order of the loop:
  those of the first \<open>processCount\<close> entries of the driver's table.
\<close>

definition processed :: "wifi \<Rightarrow> system \<Rightarrow> string list" where
  "processed w s =
     map (\<lambda>k. hashMAC (ephemeralSalt s) (BSSID w k))
       [0..<nat (min (scanNetworks w) MAX_NETWORKS_PER_SCAN)]"

text \<open>
  Of a batch of fingerprints, those that are not in the set \<open>cur\<close> when their turn
  comes: every fingerprint outside \<open>cur\<close>, at its first occurrence only.
\<close>

fun firstSeen :: "string set \<Rightarrow> string list \<Rightarrow> string list" where
  "firstSeen cur [] = []"
| "firstSeen cur (h # hs) =
     (if h \<in> cur then firstSeen cur hs else h # firstSeen (insert h cur) hs)"

text \<open>
  The condition under which \<open>reportAnalytics\<close> takes the branch \<open>New day detected\<close>
  (source lines 537, 543 and 545): the database client is ready, the time read is valid,
  and its date differs from the non-empty stored date.
\<close>

definition dayChanged :: "environment \<Rightarrow> system \<Rightarrow> bool" where
  "dayChanged e s \<longleftrightarrow>
     appReady e
     \<and> extractDateFromDateTime (getTimeFromSIM7600 e) \<noteq> ''Unknown''
     \<and> getTimeFromSIM7600 e \<noteq> ''Time unavailable''
     \<and> extractDateFromDateTime (getTimeFromSIM7600 e) \<noteq> currentDate s
     \<and> length (currentDate s) > 0"

text \<open>The path at which the daily tally of a date is kept in the database.\<close>

definition impressionsPathOf :: "system \<Rightarrow> string \<Rightarrow> string" where
  "impressionsPathOf s date =
     ''/devices/'' @ combinedBillboardId s @ ''/data/'' @ date @ ''/daily_impressions''"

text \<open>
  The pass of \<open>loop\<close> with the answers \<open>e\<close>, entered in state \<open>s\<close>, polls the driver
  (no restart, and the scan interval has elapsed); it also reports and resets when the
  poll is the last of its report cycle.
\<close>

definition scanDue :: "environment \<Rightarrow> system \<Rightarrow> bool" where
  "scanDue e s \<longleftrightarrow>
     millis e - systemStartTime s < 43200000 \<and> SCAN_INTERVAL_MS \<le> millis e - lastScanTime s"

definition endsCycle :: "environment \<Rightarrow> system \<Rightarrow> bool" where
  "endsCycle e s \<longleftrightarrow> scanDue e s \<and> SCANS_PER_UPLOAD \<le> scanCounter s + 1"

text \<open>
  The Arduino runtime calls \<open>loop\<close> again and again.  \<open>run es s\<close> is the state after the
  passes whose collaborator answers are \<open>es\<close>, in order (\<open>None\<close> when a pass restarts the
  device); \<open>resets es s\<close> counts the passes among them that end a report cycle, and
  \<open>observed es s\<close> collects the fingerprints their polls process.
\<close>

fun run :: "environment list \<Rightarrow> system \<Rightarrow> system option" where
  "run [] s = Some s"
| "run (e # es) s = (case loop e s of None \<Rightarrow> None | Some s' \<Rightarrow> run es s')"

fun resets :: "environment list \<Rightarrow> system \<Rightarrow> nat" where
  "resets [] s = 0"
| "resets (e # es) s =
     (case loop e s of
        None \<Rightarrow> 0
      | Some s' \<Rightarrow> (if endsCycle e s then 1 else 0) + resets es s')"

fun observed :: "environment list \<Rightarrow> system \<Rightarrow> string set" where
  "observed [] s = {}"
| "observed (e # es) s =
     (case loop e s of
        None \<Rightarrow> {}
      | Some s' \<Rightarrow>
          (if scanDue e s then set (processed (WiFi e) s) else {}) \<union> observed es s')"

subsection \<open>Concrete inputs\<close>

text \<open>A driver reply for a scan that found the access points \<open>ms\<close>.\<close>

definition scanOf :: "u8 list list \<Rightarrow> wifi" where
  "scanOf ms = \<lparr>scanNetworks = int (length ms), BSSID = (\<lambda>i. ms ! i)\<rparr>"

text \<open>A driver reply for a scan that failed (\<open>WIFI_SCAN_FAILED\<close> is -2).\<close>

definition failedScan :: wifi where
  "failedScan = \<lparr>scanNetworks = - 2, BSSID = (\<lambda>i. [])\<rparr>"

definition macA :: "u8 list" where
  "macA = [1, 2, 3, 4, 5, 6]"

definition macB :: "u8 list" where
  "macB = [1, 2, 3, 4, 5, 7]"

text \<open>A driver reply for a scan that found 25 access points, all with the identifier \<open>macA\<close>.\<close>

definition crowdedScan :: wifi where
  "crowdedScan = \<lparr>scanNetworks = 25, BSSID = (\<lambda>i. macA)\<rparr>"

text \<open>A state as \<open>setup\<close> leaves it: salt drawn, identity and date known, counters at 0.\<close>

definition readyState :: system where
  "readyState =
     bootState\<lparr>ephemeralSalt := 0x12345678, systemStartTime := 2000,
       combinedBillboardId := ''BB01_A1B2C3D4E5F6'',
       currentDateTime := ''2025-12-02 23:59:10 UTC'', currentDate := ''2025-12-02''\<rparr>"

text \<open>
  Answers of the collaborators during one pass: a scan is due, it finds the access point
  \<open>macA\<close>, the database client is ready, the modem's clock shows the next day, and the
  database holds nothing at any path.
\<close>

definition nextDayEnv :: environment where
  "nextDayEnv =
     \<lparr>millis = 60000, WiFi = scanOf [macA], appReady = True, updateGPSLocation = None,
      getTimeFromSIM7600 = ''2025-12-03 00:00:05 UTC'', databaseGet = (\<lambda>p. (0, 0))\<rparr>"

text \<open>
  As \<open>nextDayEnv\<close>, but the database holds the tally 42 for the new date (and answers
  every other path with an error).
\<close>

definition storedTallyEnv :: environment where
  "storedTallyEnv =
     nextDayEnv\<lparr>databaseGet :=
       (\<lambda>p. if p = ''/devices/BB01_A1B2C3D4E5F6/data/2025-12-03/daily_impressions''
            then (42, 0) else (0, - 1))\<rparr>"

text \<open>
  A state nine scans into a report cycle on 2 December, with 17 impressions on the daily
  tally and 4 detections in the cycle so far, one of them of \<open>macB\<close>.
\<close>

definition ninthScanState :: system where
  "ninthScanState =
     readyState\<lparr>scanCounter := 9, totalScansPerformed := 9, impressionCount := 4,
       wifiNetworksThisCycle := 4, uniqueWifiNetworks := 1, repeatedWifiNetworks := 3,
       totalWifiNetworks := 1, currentCycleHashes := {''91914de4bb6d4b8d''},
       dailyImpressions := 17\<rparr>"

text \<open>As \<open>nextDayEnv\<close>, but the modem does not deliver the time.\<close>

definition noTimeEnv :: environment where
  "noTimeEnv = nextDayEnv\<lparr>getTimeFromSIM7600 := ''Time unavailable''\<rparr>"

text \<open>As \<open>nextDayEnv\<close>, but the modem's clock still shows 2 December.\<close>

definition sameDayEnv :: environment where
  "sameDayEnv = nextDayEnv\<lparr>getTimeFromSIM7600 := ''2025-12-02 23:59:40 UTC''\<rparr>"

text \<open>
  The answers during the \<open>k\<close>-th of a series of passes five seconds apart, each of which
  finds the access point \<open>macB\<close>, on 2 December.
\<close>

definition tickEnv :: "nat \<Rightarrow> environment" where
  "tickEnv k = sameDayEnv\<lparr>millis := 60000 + 5000 * of_nat k, WiFi := scanOf [macB]\<rparr>"

text \<open>As \<open>ninthScanState\<close>, but the detection of the cycle so far was of \<open>macA\<close>.\<close>

definition ninthScanStateA :: system where
  "ninthScanStateA = ninthScanState\<lparr>currentCycleHashes := {''82e2cdda9244612a''}\<rparr>"

section \<open>Auxiliary lemmas\<close>

declare hashLoop.simps [simp del]
declare scanLoop.simps [simp del]
declare decimal.simps [simp del]

subsection \<open>The scan loop as a fold over the fingerprints\<close>

lemma scanBody_salt: "ephemeralSalt (fst (scanBody h acc)) = ephemeralSalt (fst acc)"
  by (cases acc) (simp add: scanBody_def Let_def)

lemma upt_nat_step:
  assumes "0 \<le> i" and "i < n"
  shows "[nat i..<nat n] = nat i # [nat (i + 1)..<nat n]"
proof -
  from assms have "nat i < nat n" by simp
  then have "[nat i..<nat n] = nat i # [Suc (nat i)..<nat n]" by (rule upt_conv_Cons)
  moreover from assms have "Suc (nat i) = nat (i + 1)" by simp
  ultimately show ?thesis by simp
qed

lemma scanLoop_fold:
  "0 \<le> i \<Longrightarrow> scanLoop w n i acc =
     fold scanBody (map (\<lambda>k. hashMAC (ephemeralSalt (fst acc)) (BSSID w k)) [nat i..<nat n]) acc"
proof (induction w n i acc rule: scanLoop.induct)
  case (1 w n i acc)
  show ?case
  proof (cases "i < n")
    case True
    note eq = upt_nat_step [OF "1.prems" True]
    have "scanLoop w n i acc = scanLoop w n (i + 1)
          (scanBody (hashMAC (ephemeralSalt (fst acc)) (BSSID w (nat i))) acc)"
      using True by (subst scanLoop.simps) simp
    also have "\<dots> =
        fold scanBody (map (\<lambda>k. hashMAC (ephemeralSalt (fst acc)) (BSSID w k)) [nat (i + 1)..<nat n])
          (scanBody (hashMAC (ephemeralSalt (fst acc)) (BSSID w (nat i))) acc)"
      using "1.IH" [OF True] "1.prems" by (simp add: scanBody_salt)
    finally show ?thesis by (simp only: eq list.map fold_simps)
  next
    case False
    then show ?thesis by (subst scanLoop.simps) simp
  qed
qed

lemma processCount_min:
  "(if scanNetworks w > MAX_NETWORKS_PER_SCAN then MAX_NETWORKS_PER_SCAN else scanNetworks w)
     = min (scanNetworks w) MAX_NETWORKS_PER_SCAN"
  by (simp add: min_def)

lemma performWiFiScan_fold:
  assumes "0 < scanNetworks w"
  shows "performWiFiScan w s =
     (case fold scanBody (processed w s)
             (s\<lparr>totalScansPerformed := totalScansPerformed s + 1,
                impressionCount := impressionCount s + word_of_int (scanNetworks w)\<rparr>, 0, 0) of
        (s3, uniqueInThisScan, repeatedInThisScan) \<Rightarrow>
          s3\<lparr>wifiNetworksThisCycle := wifiNetworksThisCycle s3 + word_of_int (scanNetworks w),
             uniqueWifiNetworks := uniqueWifiNetworks s3 + word_of_int uniqueInThisScan,
             repeatedWifiNetworks := repeatedWifiNetworks s3 + word_of_int repeatedInThisScan\<rparr>)"
  using assms
  by (simp add: performWiFiScan_def Let_def processCount_min scanLoop_fold processed_def)

subsection \<open>What a batch of fingerprints does to the state\<close>

lemma length_firstSeen: "length (firstSeen cur hs) \<le> length hs"
  by (induction hs arbitrary: cur) (auto simp: le_SucI)

lemma set_firstSeen: "set (firstSeen cur hs) = set hs - cur"
  by (induction hs arbitrary: cur) auto

lemma distinct_firstSeen: "distinct (firstSeen cur hs)"
  by (induction hs arbitrary: cur) (auto simp: set_firstSeen)

lemma scanBody_repeated:
  "h \<in> currentCycleHashes s \<Longrightarrow> scanBody h (s, u, r) = (s, u, r + 1)"
  by (simp add: scanBody_def)

lemma scanBody_new:
  "h \<notin> currentCycleHashes s \<Longrightarrow> h \<notin> previousCycleHashes s \<Longrightarrow>
   scanBody h (s, u, r) =
     (s\<lparr>currentCycleHashes := insert h (currentCycleHashes s),
        totalWifiNetworks := totalWifiNetworks s + 1\<rparr>, u + 1, r)"
  by (simp add: scanBody_def)

lemma scanBody_cycle_only:
  "h \<notin> currentCycleHashes s \<Longrightarrow> h \<in> previousCycleHashes s \<Longrightarrow>
   scanBody h (s, u, r) =
     (s\<lparr>currentCycleHashes := insert h (currentCycleHashes s)\<rparr>, u + 1, r)"
  by (simp add: scanBody_def)

lemma fold_scanBody:
  "fold scanBody hs (s, u, r) =
     (s\<lparr>currentCycleHashes := currentCycleHashes s \<union> set hs,
        totalWifiNetworks := totalWifiNetworks s +
          of_nat (length (filter (\<lambda>h. h \<notin> previousCycleHashes s)
                    (firstSeen (currentCycleHashes s) hs)))\<rparr>,
      u + int (length (firstSeen (currentCycleHashes s) hs)),
      r + int (length hs - length (firstSeen (currentCycleHashes s) hs)))"
proof (induction hs arbitrary: s u r)
  case Nil
  show ?case by simp
next
  case (Cons h hs)
  show ?case
  proof (cases "h \<in> currentCycleHashes s")
    case True
    then show ?thesis
      using length_firstSeen [of "currentCycleHashes s" hs]
      by (simp add: scanBody_repeated Cons.IH insert_absorb Suc_diff_le)
  next
    case False
    show ?thesis
    proof (cases "h \<in> previousCycleHashes s")
      case True
      with False show ?thesis
        by (simp add: scanBody_cycle_only Cons.IH)
    next
      case nprev: False
      with False show ?thesis
        by (simp add: scanBody_new Cons.IH add.assoc)
    qed
  qed
qed

lemma performWiFiScan_found:
  assumes "0 < scanNetworks w"
  shows "performWiFiScan w s =
     s\<lparr>totalScansPerformed := totalScansPerformed s + 1,
       impressionCount := impressionCount s + word_of_int (scanNetworks w),
       currentCycleHashes := currentCycleHashes s \<union> set (processed w s),
       totalWifiNetworks := totalWifiNetworks s +
         of_nat (length (filter (\<lambda>h. h \<notin> previousCycleHashes s)
                   (firstSeen (currentCycleHashes s) (processed w s)))),
       wifiNetworksThisCycle := wifiNetworksThisCycle s + word_of_int (scanNetworks w),
       uniqueWifiNetworks := uniqueWifiNetworks s +
         of_nat (length (firstSeen (currentCycleHashes s) (processed w s))),
       repeatedWifiNetworks := repeatedWifiNetworks s +
         of_nat (length (processed w s) -
                 length (firstSeen (currentCycleHashes s) (processed w s)))\<rparr>"
  by (simp add: performWiFiScan_fold [OF assms] fold_scanBody)

lemma performWiFiScan_error:
  "scanNetworks w < 0 \<Longrightarrow> performWiFiScan w s =
     s\<lparr>totalScansPerformed := totalScansPerformed s + 1, scanErrors := scanErrors s + 1\<rparr>"
  by (simp add: performWiFiScan_def Let_def)

lemma performWiFiScan_none:
  "scanNetworks w = 0 \<Longrightarrow> performWiFiScan w s =
     s\<lparr>totalScansPerformed := totalScansPerformed s + 1\<rparr>"
  by (simp add: performWiFiScan_def Let_def)

lemma performWiFiScan_salt [simp]:
  "ephemeralSalt (performWiFiScan w s) = ephemeralSalt s"
proof -
  consider "scanNetworks w < 0" | "scanNetworks w = 0" | "0 < scanNetworks w" by linarith
  then show ?thesis
    by cases (simp_all add: performWiFiScan_error performWiFiScan_none performWiFiScan_found)
qed

subsection \<open>Fingerprints of the concrete inputs\<close>

lemma hashMAC_macA: "hashMAC 0x12345678 macA = ''82e2cdda9244612a''"
  by code_simp

lemma hashMAC_macB: "hashMAC 0x12345678 macB = ''91914de4bb6d4b8d''"
  by code_simp

lemma readyState_simps [simp]:
  "ephemeralSalt readyState = 0x12345678"
  "currentCycleHashes readyState = {}"
  "previousCycleHashes readyState = {}"
  "uniqueWifiNetworks readyState = 0"
  "repeatedWifiNetworks readyState = 0"
  "wifiNetworksThisCycle readyState = 0"
  "impressionCount readyState = 0"
  "totalWifiNetworks readyState = 0"
  "totalScansPerformed readyState = 0"
  "totalReportsGenerated readyState = 0"
  "dailyImpressions readyState = 0"
  "scanCounter readyState = 0"
  "scanErrors readyState = 0"
  "lastScanTime readyState = 0"
  "systemStartTime readyState = 2000"
  "currentDate readyState = ''2025-12-02''"
  "combinedBillboardId readyState = ''BB01_A1B2C3D4E5F6''"
  "databaseSet readyState = []"
  by (simp_all add: readyState_def bootState_def)

lemma scanOf_simps [simp]:
  "scanNetworks (scanOf ms) = int (length ms)"
  "BSSID (scanOf ms) i = ms ! i"
  by (simp_all add: scanOf_def)

lemma map_nth_fun: "map (\<lambda>k. f (ms ! k)) [0..<length ms] = map f ms"
proof -
  have "map (\<lambda>k. f (ms ! k)) [0..<length ms] = map f (map ((!) ms) [0..<length ms])"
    by simp
  then show ?thesis by (simp only: map_nth)
qed

lemma processed_scanOf:
  "length ms \<le> 20 \<Longrightarrow> processed (scanOf ms) s = map (hashMAC (ephemeralSalt s)) ms"
  by (simp add: processed_def MAX_NETWORKS_PER_SCAN_def map_nth_fun)

lemma failedScan_simps [simp]: "scanNetworks failedScan = - 2"
  by (simp add: failedScan_def)

lemma nextDayEnv_simps [simp]:
  "millis nextDayEnv = 60000"
  "WiFi nextDayEnv = scanOf [macA]"
  "appReady nextDayEnv = True"
  "updateGPSLocation nextDayEnv = None"
  "getTimeFromSIM7600 nextDayEnv = ''2025-12-03 00:00:05 UTC''"
  "databaseGet nextDayEnv p = (0, 0)"
  by (simp_all add: nextDayEnv_def)

subsection \<open>A scan of three networks\<close>

lemma processed_three:
  assumes "scanNetworks w = 3"
  shows "processed w s =
    [hashMAC (ephemeralSalt s) (BSSID w 0), hashMAC (ephemeralSalt s) (BSSID w 1),
     hashMAC (ephemeralSalt s) (BSSID w 2)]"
proof -
  have "[0..<3] = [0, 1, 2::nat]" by (simp add: upt_rec)
  then show ?thesis
    using assms by (simp add: processed_def MAX_NETWORKS_PER_SCAN_def)
qed

lemma scan_AAB:
  assumes w: "scanNetworks w = 3" "BSSID w 0 = a" "BSSID w 1 = a" "BSSID w 2 = b"
    and ab: "hashMAC (ephemeralSalt s) a \<noteq> hashMAC (ephemeralSalt s) b"
    and a: "hashMAC (ephemeralSalt s) a \<notin> currentCycleHashes s \<union> previousCycleHashes s"
    and b: "hashMAC (ephemeralSalt s) b \<notin> currentCycleHashes s \<union> previousCycleHashes s"
  shows "uniqueWifiNetworks (performWiFiScan w s) = uniqueWifiNetworks s + 2
    \<and> repeatedWifiNetworks (performWiFiScan w s) = repeatedWifiNetworks s + 1
    \<and> totalWifiNetworks (performWiFiScan w s) = totalWifiNetworks s + 2
    \<and> currentCycleHashes (performWiFiScan w s) =
        insert (hashMAC (ephemeralSalt s) a)
          (insert (hashMAC (ephemeralSalt s) b) (currentCycleHashes s))"
proof -
  have pos: "0 < scanNetworks w" using w(1) by simp
  have p: "processed w s =
      [hashMAC (ephemeralSalt s) a, hashMAC (ephemeralSalt s) a, hashMAC (ephemeralSalt s) b]"
    using processed_three [OF w(1), of s] w by simp
  have f: "firstSeen (currentCycleHashes s) (processed w s) =
      [hashMAC (ephemeralSalt s) a, hashMAC (ephemeralSalt s) b]"
    using a b ab by (simp add: p)
  show ?thesis
    using a b by (auto simp add: performWiFiScan_found [OF pos] f) (simp_all add: p)
qed

subsection \<open>The report step\<close>

lemma dayChange_frame:
  "dayChange e d s =
     s\<lparr>currentDate := currentDate (dayChange e d s),
       dailyImpressions := dailyImpressions (dayChange e d s)\<rparr>"
  by (simp add: dayChange_def Let_def split: prod.splits)

lemma dayChange_new_day:
  assumes "d \<noteq> currentDate s" and "length (currentDate s) > 0"
  shows "currentDate (dayChange e d s) = d"
    and "dailyImpressions (dayChange e d s) =
      (case databaseGet e (impressionsPathOf s d) of
         (existingImpressions, errorCode) \<Rightarrow>
           if errorCode = 0 \<and> existingImpressions > 0
           then word_of_int existingImpressions else 0)"
  using assms
  by (simp_all add: dayChange_def impressionsPathOf_def Let_def split: prod.splits)

lemma dayChange_same_day:
  assumes "d = currentDate s \<or> length (currentDate s) = 0"
  shows "dailyImpressions (dayChange e d s) = dailyImpressions s"
    and "currentDate (dayChange e d s) = d"
  using assms
  by (auto simp add: dayChange_def Let_def split: prod.splits)

lemma upload_frame:
  "upload s =
     s\<lparr>databaseSet := databaseSet (upload s), totalDataSent := totalDataSent (upload s)\<rparr>"
  by (simp add: upload_def Let_def)

lemma upload_keeps [simp]:
  "dailyImpressions (upload s) = dailyImpressions s"
  "currentDate (upload s) = currentDate s"
  by (simp_all add: upload_def Let_def)

lemma dayChange_keeps [simp]:
  "currentCycleHashes (dayChange e d s) = currentCycleHashes s"
  "previousCycleHashes (dayChange e d s) = previousCycleHashes s"
  "totalWifiNetworks (dayChange e d s) = totalWifiNetworks s"
  "totalScansPerformed (dayChange e d s) = totalScansPerformed s"
  "totalReportsGenerated (dayChange e d s) = totalReportsGenerated s"
  "reportCounter (dayChange e d s) = reportCounter s"
  "wifiNetworksThisCycle (dayChange e d s) = wifiNetworksThisCycle s"
  "uniqueWifiNetworks (dayChange e d s) = uniqueWifiNetworks s"
  "repeatedWifiNetworks (dayChange e d s) = repeatedWifiNetworks s"
  "impressionCount (dayChange e d s) = impressionCount s"
  "ephemeralSalt (dayChange e d s) = ephemeralSalt s"
  "scanCounter (dayChange e d s) = scanCounter s"
  "scanErrors (dayChange e d s) = scanErrors s"
  "lastScanTime (dayChange e d s) = lastScanTime s"
  "systemStartTime (dayChange e d s) = systemStartTime s"
  by (simp_all add: dayChange_def Let_def split: prod.splits)

lemma upload_keeps_more [simp]:
  "currentCycleHashes (upload s) = currentCycleHashes s"
  "previousCycleHashes (upload s) = previousCycleHashes s"
  "totalWifiNetworks (upload s) = totalWifiNetworks s"
  "totalScansPerformed (upload s) = totalScansPerformed s"
  "totalReportsGenerated (upload s) = totalReportsGenerated s"
  "reportCounter (upload s) = reportCounter s"
  "wifiNetworksThisCycle (upload s) = wifiNetworksThisCycle s"
  "uniqueWifiNetworks (upload s) = uniqueWifiNetworks s"
  "repeatedWifiNetworks (upload s) = repeatedWifiNetworks s"
  "impressionCount (upload s) = impressionCount s"
  "ephemeralSalt (upload s) = ephemeralSalt s"
  "scanCounter (upload s) = scanCounter s"
  "scanErrors (upload s) = scanErrors s"
  "lastScanTime (upload s) = lastScanTime s"
  "systemStartTime (upload s) = systemStartTime s"
  by (simp_all add: upload_def Let_def)

lemma reportAnalytics_keeps [simp]:
  "currentCycleHashes (reportAnalytics e s) = currentCycleHashes s"
  "previousCycleHashes (reportAnalytics e s) = previousCycleHashes s"
  "totalWifiNetworks (reportAnalytics e s) = totalWifiNetworks s"
  "totalScansPerformed (reportAnalytics e s) = totalScansPerformed s"
  "wifiNetworksThisCycle (reportAnalytics e s) = wifiNetworksThisCycle s"
  "uniqueWifiNetworks (reportAnalytics e s) = uniqueWifiNetworks s"
  "repeatedWifiNetworks (reportAnalytics e s) = repeatedWifiNetworks s"
  "impressionCount (reportAnalytics e s) = impressionCount s"
  "ephemeralSalt (reportAnalytics e s) = ephemeralSalt s"
  "scanCounter (reportAnalytics e s) = scanCounter s"
  "scanErrors (reportAnalytics e s) = scanErrors s"
  "lastScanTime (reportAnalytics e s) = lastScanTime s"
  "systemStartTime (reportAnalytics e s) = systemStartTime s"
  "totalReportsGenerated (reportAnalytics e s) = totalReportsGenerated s + 1"
  "reportCounter (reportAnalytics e s) = reportCounter s + 1"
  by (simp_all add: reportAnalytics_def Let_def split: option.splits)

lemma reportAnalytics_daily:
  "dailyImpressions (reportAnalytics e s) =
     (if dayChanged e s then
        (case databaseGet e (impressionsPathOf s (extractDateFromDateTime (getTimeFromSIM7600 e))) of
           (existingImpressions, errorCode) \<Rightarrow>
             if errorCode = 0 \<and> existingImpressions > 0
             then word_of_int existingImpressions else 0)
      else dailyImpressions s + impressionCount s)"
proof (cases "dayChanged e s")
  case True
  then show ?thesis
    by (simp add: reportAnalytics_def Let_def dayChanged_def dayChange_new_day
        impressionsPathOf_def split: option.splits)
next
  case False
  then show ?thesis
    by (auto simp add: reportAnalytics_def Let_def dayChanged_def dayChange_same_day
        split: option.splits)
qed

lemma reportAnalytics_date:
  "currentDate (reportAnalytics e s) =
     (if appReady e \<and> extractDateFromDateTime (getTimeFromSIM7600 e) \<noteq> ''Unknown''
         \<and> getTimeFromSIM7600 e \<noteq> ''Time unavailable''
         \<and> (extractDateFromDateTime (getTimeFromSIM7600 e) \<noteq> currentDate s
              \<or> length (currentDate s) = 0)
      then extractDateFromDateTime (getTimeFromSIM7600 e) else currentDate s)"
  by (auto simp add: reportAnalytics_def Let_def dayChange_def split: option.splits prod.splits)

lemma reportAnalytics_unavailable:
  assumes "getTimeFromSIM7600 e = ''Time unavailable''"
  shows "databaseSet (reportAnalytics e s) = databaseSet s"
    and "totalDataSent (reportAnalytics e s) = totalDataSent s"
  using assms
  by (simp_all add: reportAnalytics_def Let_def split: option.splits)

lemma reportAnalytics_not_ready:
  assumes "\<not> appReady e"
  shows "databaseSet (reportAnalytics e s) = databaseSet s"
    and "totalDataSent (reportAnalytics e s) = totalDataSent s"
    and "currentDateTime (reportAnalytics e s) = currentDateTime s"
  using assms
  by (simp_all add: reportAnalytics_def Let_def split: option.splits)

subsection \<open>Scans above and below the cap\<close>

lemma processed_capped:
  assumes "20 < scanNetworks w"
  shows "processed w s = map (\<lambda>k. hashMAC (ephemeralSalt s) (BSSID w k)) [0..<20]"
    and "processed (w\<lparr>scanNetworks := 20\<rparr>) s = processed w s"
  using assms by (simp_all add: processed_def MAX_NETWORKS_PER_SCAN_def)

lemma length_processed:
  assumes "0 \<le> scanNetworks w"
  shows "length (processed w s) = nat (min (scanNetworks w) 20)"
  by (simp add: processed_def MAX_NETWORKS_PER_SCAN_def)

lemma classified_total:
  "(of_nat (length (firstSeen cur hs)) :: u32) + of_nat (length hs - length (firstSeen cur hs))
     = of_nat (length hs)"
proof -
  have "length (firstSeen cur hs) + (length hs - length (firstSeen cur hs)) = length hs"
    using length_firstSeen [of cur hs] by simp
  then show ?thesis by (metis of_nat_add)
qed

lemma performWiFiScan_accounted:
  assumes "0 < scanNetworks w"
  shows "uniqueWifiNetworks (performWiFiScan w s) + repeatedWifiNetworks (performWiFiScan w s)
    = uniqueWifiNetworks s + repeatedWifiNetworks s + of_nat (length (processed w s))"
proof -
  have "uniqueWifiNetworks (performWiFiScan w s) + repeatedWifiNetworks (performWiFiScan w s)
      = uniqueWifiNetworks s + repeatedWifiNetworks s +
        (of_nat (length (firstSeen (currentCycleHashes s) (processed w s))) +
         of_nat (length (processed w s) -
                 length (firstSeen (currentCycleHashes s) (processed w s))))"
    by (simp add: performWiFiScan_found [OF assms])
  then show ?thesis by (simp only: classified_total)
qed

lemma performWiFiScan_capped:
  assumes "20 < scanNetworks w"
  shows "performWiFiScan w s =
        (performWiFiScan (w\<lparr>scanNetworks := 20\<rparr>) s)
          \<lparr>impressionCount := impressionCount s + word_of_int (scanNetworks w),
           wifiNetworksThisCycle := wifiNetworksThisCycle s + word_of_int (scanNetworks w)\<rparr>"
proof -
  have pos: "0 < scanNetworks w" using assms by simp
  have pos20: "0 < scanNetworks (w\<lparr>scanNetworks := 20\<rparr>)" by simp
  show ?thesis
    by (simp add: performWiFiScan_found [OF pos] performWiFiScan_found [OF pos20]
        processed_capped(2) [OF assms])
qed

lemma cap_less:
  assumes "20 < n" and "n < 2 ^ 32"
  shows "(20 :: u32) < word_of_int n"
proof -
  have "unat (word_of_int n :: u32) = nat n"
    using assms by (simp add: unat_eq_nat_uint uint_word_of_int take_bit_int_eq_self)
  then show ?thesis
    using assms by (simp add: word_less_nat_alt)
qed

lemma crowdedScan_simps [simp]:
  "scanNetworks crowdedScan = 25"
  "BSSID crowdedScan k = macA"
  by (simp_all add: crowdedScan_def)

subsection \<open>What a scan leaves alone\<close>

lemma performWiFiScan_keeps [simp]:
  "dailyImpressions (performWiFiScan w s) = dailyImpressions s"
  "currentDate (performWiFiScan w s) = currentDate s"
  "previousCycleHashes (performWiFiScan w s) = previousCycleHashes s"
  "totalReportsGenerated (performWiFiScan w s) = totalReportsGenerated s"
  "databaseSet (performWiFiScan w s) = databaseSet s"
  "scanCounter (performWiFiScan w s) = scanCounter s"
  "lastScanTime (performWiFiScan w s) = lastScanTime s"
  "systemStartTime (performWiFiScan w s) = systemStartTime s"
  "totalScansPerformed (performWiFiScan w s) = totalScansPerformed s + 1"
proof -
  consider "scanNetworks w < 0" | "scanNetworks w = 0" | "0 < scanNetworks w" by linarith
  then have "dailyImpressions (performWiFiScan w s) = dailyImpressions s
    \<and> currentDate (performWiFiScan w s) = currentDate s
    \<and> previousCycleHashes (performWiFiScan w s) = previousCycleHashes s
    \<and> totalReportsGenerated (performWiFiScan w s) = totalReportsGenerated s
    \<and> databaseSet (performWiFiScan w s) = databaseSet s
    \<and> scanCounter (performWiFiScan w s) = scanCounter s
    \<and> lastScanTime (performWiFiScan w s) = lastScanTime s
    \<and> systemStartTime (performWiFiScan w s) = systemStartTime s
    \<and> totalScansPerformed (performWiFiScan w s) = totalScansPerformed s + 1"
    by cases (simp_all add: performWiFiScan_error performWiFiScan_none performWiFiScan_found)
  then show "dailyImpressions (performWiFiScan w s) = dailyImpressions s"
    and "currentDate (performWiFiScan w s) = currentDate s"
    and "previousCycleHashes (performWiFiScan w s) = previousCycleHashes s"
    and "totalReportsGenerated (performWiFiScan w s) = totalReportsGenerated s"
    and "databaseSet (performWiFiScan w s) = databaseSet s"
    and "scanCounter (performWiFiScan w s) = scanCounter s"
    and "lastScanTime (performWiFiScan w s) = lastScanTime s"
    and "systemStartTime (performWiFiScan w s) = systemStartTime s"
    and "totalScansPerformed (performWiFiScan w s) = totalScansPerformed s + 1"
    by simp_all
qed

lemma extractDate_examples [simp]:
  "extractDateFromDateTime ''2025-12-03 00:00:05 UTC'' = ''2025-12-03''"
  "extractDateFromDateTime ''2025-12-02 23:59:40 UTC'' = ''2025-12-02''"
  "extractDateFromDateTime ''Time unavailable'' = ''Time''"
  by (simp_all add: extractDateFromDateTime_def)

subsection \<open>The environment with a stored tally\<close>

lemma storedTallyEnv_simps [simp]:
  "appReady storedTallyEnv = True"
  "getTimeFromSIM7600 storedTallyEnv = ''2025-12-03 00:00:05 UTC''"
  "databaseGet storedTallyEnv ''/devices/BB01_A1B2C3D4E5F6/data/2025-12-03/daily_impressions''
     = (42, 0)"
  by (simp_all add: storedTallyEnv_def)

subsection \<open>One pass of the polling loop\<close>

lemma resetCycle_simps [simp]:
  "wifiNetworksThisCycle (resetCycle s) = 0"
  "repeatedWifiNetworks (resetCycle s) = 0"
  "uniqueWifiNetworks (resetCycle s) = 0"
  "impressionCount (resetCycle s) = 0"
  "scanCounter (resetCycle s) = 0"
  "currentCycleHashes (resetCycle s) = {}"
  "previousCycleHashes (resetCycle s) = currentCycleHashes s"
  "totalWifiNetworks (resetCycle s) = totalWifiNetworks s"
  "totalScansPerformed (resetCycle s) = totalScansPerformed s"
  "totalReportsGenerated (resetCycle s) = totalReportsGenerated s"
  "dailyImpressions (resetCycle s) = dailyImpressions s"
  "currentDate (resetCycle s) = currentDate s"
  "databaseSet (resetCycle s) = databaseSet s"
  "ephemeralSalt (resetCycle s) = ephemeralSalt s"
  by (simp_all add: resetCycle_def)

text \<open>The four ways a pass of \<open>loop\<close> can go.\<close>

lemma loop_restart:
  "43200000 \<le> millis e - systemStartTime s \<Longrightarrow> loop e s = None"
  by (simp add: loop_def)

lemma loop_idle:
  "millis e - systemStartTime s < 43200000 \<Longrightarrow> millis e - lastScanTime s < SCAN_INTERVAL_MS
   \<Longrightarrow> loop e s = Some s"
  by (simp add: loop_def not_le [symmetric])

lemma loop_scan:
  "millis e - systemStartTime s < 43200000 \<Longrightarrow> SCAN_INTERVAL_MS \<le> millis e - lastScanTime s
   \<Longrightarrow> scanCounter s + 1 < SCANS_PER_UPLOAD
   \<Longrightarrow> loop e s =
       Some ((performWiFiScan (WiFi e) s)\<lparr>lastScanTime := millis e,
               scanCounter := scanCounter s + 1\<rparr>)"
  by (simp add: loop_def Let_def not_le [symmetric])

lemma loop_cycle_end:
  "millis e - systemStartTime s < 43200000 \<Longrightarrow> SCAN_INTERVAL_MS \<le> millis e - lastScanTime s
   \<Longrightarrow> SCANS_PER_UPLOAD \<le> scanCounter s + 1
   \<Longrightarrow> loop e s =
       Some (resetCycle (reportAnalytics e
         ((performWiFiScan (WiFi e) s)\<lparr>lastScanTime := millis e,
            scanCounter := scanCounter s + 1\<rparr>)))"
  by (simp add: loop_def Let_def not_le [symmetric])

lemma loop_cases:
  assumes "loop e s = Some s'"
  obtains (idle) "s' = s"
  | (scan) "s' = (performWiFiScan (WiFi e) s)\<lparr>lastScanTime := millis e,
               scanCounter := scanCounter s + 1\<rparr>"
  | (cycle_end) "s' = resetCycle (reportAnalytics e
         ((performWiFiScan (WiFi e) s)\<lparr>lastScanTime := millis e,
            scanCounter := scanCounter s + 1\<rparr>))"
  using assms by (auto simp add: loop_def Let_def split: if_splits)

lemma dayChanged_after_scan [simp]:
  "dayChanged e ((performWiFiScan w s)\<lparr>lastScanTime := t, scanCounter := c\<rparr>) = dayChanged e s"
  by (simp add: dayChanged_def)

subsection \<open>The ninth-scan state and its environments\<close>

lemma ninthScanState_simps [simp]:
  "ephemeralSalt ninthScanState = 0x12345678"
  "currentCycleHashes ninthScanState = {''91914de4bb6d4b8d''}"
  "previousCycleHashes ninthScanState = {}"
  "uniqueWifiNetworks ninthScanState = 1"
  "repeatedWifiNetworks ninthScanState = 3"
  "wifiNetworksThisCycle ninthScanState = 4"
  "impressionCount ninthScanState = 4"
  "totalWifiNetworks ninthScanState = 1"
  "totalScansPerformed ninthScanState = 9"
  "totalReportsGenerated ninthScanState = 0"
  "dailyImpressions ninthScanState = 17"
  "scanCounter ninthScanState = 9"
  "lastScanTime ninthScanState = 0"
  "systemStartTime ninthScanState = 2000"
  "currentDate ninthScanState = ''2025-12-02''"
  "combinedBillboardId ninthScanState = ''BB01_A1B2C3D4E5F6''"
  "databaseSet ninthScanState = []"
  by (simp_all add: ninthScanState_def)

lemma noTimeEnv_simps [simp]:
  "millis noTimeEnv = 60000"
  "WiFi noTimeEnv = scanOf [macA]"
  "appReady noTimeEnv = True"
  "getTimeFromSIM7600 noTimeEnv = ''Time unavailable''"
  by (simp_all add: noTimeEnv_def)

lemma sameDayEnv_simps [simp]:
  "millis sameDayEnv = 60000"
  "WiFi sameDayEnv = scanOf [macA]"
  "appReady sameDayEnv = True"
  "getTimeFromSIM7600 sameDayEnv = ''2025-12-02 23:59:40 UTC''"
  by (simp_all add: sameDayEnv_def)

lemma scan_macA_ninth:
  "currentCycleHashes (performWiFiScan (scanOf [macA]) ninthScanState) =
     {''82e2cdda9244612a'', ''91914de4bb6d4b8d''}"
  "impressionCount (performWiFiScan (scanOf [macA]) ninthScanState) = 5"
  "totalWifiNetworks (performWiFiScan (scanOf [macA]) ninthScanState) = 2"
  by (simp_all add: performWiFiScan_found processed_scanOf hashMAC_macA)

subsection \<open>Growth of the cumulative network count\<close>

lemma added_networks_bound:
  "0 < scanNetworks w \<Longrightarrow>
   length (filter (\<lambda>h. h \<notin> previousCycleHashes s)
             (firstSeen (currentCycleHashes s) (processed w s))) \<le> 20"
proof -
  assume pos: "0 < scanNetworks w"
  have "length (filter (\<lambda>h. h \<notin> previousCycleHashes s)
             (firstSeen (currentCycleHashes s) (processed w s)))
      \<le> length (firstSeen (currentCycleHashes s) (processed w s))"
    by (rule length_filter_le)
  also have "\<dots> \<le> length (processed w s)" by (rule length_firstSeen)
  also have "\<dots> \<le> 20" using pos by (simp add: length_processed)
  finally show ?thesis .
qed

lemma performWiFiScan_total:
  "\<exists>k\<le>20. totalWifiNetworks (performWiFiScan w s) = totalWifiNetworks s + of_nat k"
proof -
  consider "scanNetworks w < 0" | "scanNetworks w = 0" | "0 < scanNetworks w" by linarith
  then show ?thesis
  proof cases
    case 1
    then have "totalWifiNetworks (performWiFiScan w s) = totalWifiNetworks s + of_nat 0"
      by (simp add: performWiFiScan_error)
    then show ?thesis by blast
  next
    case 2
    then have "totalWifiNetworks (performWiFiScan w s) = totalWifiNetworks s + of_nat 0"
      by (simp add: performWiFiScan_none)
    then show ?thesis by blast
  next
    case 3
    have "totalWifiNetworks (performWiFiScan w s) = totalWifiNetworks s +
        of_nat (length (filter (\<lambda>h. h \<notin> previousCycleHashes s)
             (firstSeen (currentCycleHashes s) (processed w s))))"
      by (simp add: performWiFiScan_found [OF 3])
    with added_networks_bound [OF 3] show ?thesis by blast
  qed
qed

subsection \<open>Unsigned addition without wrap-around\<close>


subsection \<open>The hash loops as a fold\<close>


lemma length_saltBytes [simp]: "length (saltBytes salt) = 4"
  by (simp add: saltBytes_def)







subsection \<open>A scan of one network\<close>



lemma sameDayEnv_more [simp]:
  "updateGPSLocation sameDayEnv = None"
  "databaseGet sameDayEnv p = (0, 0)"
  by (simp_all add: sameDayEnv_def)

section \<open>The claims\<close>

subsection \<open>Classification of fingerprints\<close>

text \<open>
  Claim C1.  Every successful scan runs the loop body \<open>scanBody\<close> over the fingerprints
  it processes, in order, and adds the two local counts to the cycle counters
  \<open>uniqueWifiNetworks\<close> and \<open>repeatedWifiNetworks\<close>.  The loop body classifies a fingerprint
  against the two generation sets: one already in \<open>currentCycleHashes\<close> is counted as
  repeated and nothing is inserted; one in neither set is inserted into
  \<open>currentCycleHashes\<close> and counted both in \<open>totalWifiNetworks\<close> and as unique; one absent
  from \<open>currentCycleHashes\<close> but present in \<open>previousCycleHashes\<close> is inserted and counted as
  unique, and \<open>totalWifiNetworks\<close> stays.  A scan of the access points A, A, B, whose
  fingerprints differ and are in neither set, adds 2 to \<open>uniqueWifiNetworks\<close>, 1 to
  \<open>repeatedWifiNetworks\<close> and 2 to \<open>totalWifiNetworks\<close>.
\<close>

theorem scan_classification:
  "(0 < scanNetworks w \<longrightarrow>
      performWiFiScan w s =
        (case fold scanBody (processed w s)
                (s\<lparr>totalScansPerformed := totalScansPerformed s + 1,
                   impressionCount := impressionCount s + word_of_int (scanNetworks w)\<rparr>, 0, 0) of
           (s3, uniqueInThisScan, repeatedInThisScan) \<Rightarrow>
             s3\<lparr>wifiNetworksThisCycle := wifiNetworksThisCycle s3 + word_of_int (scanNetworks w),
                uniqueWifiNetworks := uniqueWifiNetworks s3 + word_of_int uniqueInThisScan,
                repeatedWifiNetworks := repeatedWifiNetworks s3 + word_of_int repeatedInThisScan\<rparr>))
   \<and> (h \<in> currentCycleHashes s \<longrightarrow> scanBody h (s, u, r) = (s, u, r + 1))
   \<and> (h \<notin> currentCycleHashes s \<and> h \<notin> previousCycleHashes s \<longrightarrow>
        scanBody h (s, u, r) =
          (s\<lparr>currentCycleHashes := insert h (currentCycleHashes s),
             totalWifiNetworks := totalWifiNetworks s + 1\<rparr>, u + 1, r))
   \<and> (h \<notin> currentCycleHashes s \<and> h \<in> previousCycleHashes s \<longrightarrow>
        scanBody h (s, u, r) =
          (s\<lparr>currentCycleHashes := insert h (currentCycleHashes s)\<rparr>, u + 1, r))
   \<and> (scanNetworks w = 3 \<and> BSSID w 0 = a \<and> BSSID w 1 = a \<and> BSSID w 2 = b
        \<and> hashMAC (ephemeralSalt s) a \<noteq> hashMAC (ephemeralSalt s) b
        \<and> hashMAC (ephemeralSalt s) a \<notin> currentCycleHashes s \<union> previousCycleHashes s
        \<and> hashMAC (ephemeralSalt s) b \<notin> currentCycleHashes s \<union> previousCycleHashes s \<longrightarrow>
        uniqueWifiNetworks (performWiFiScan w s) = uniqueWifiNetworks s + 2
        \<and> repeatedWifiNetworks (performWiFiScan w s) = repeatedWifiNetworks s + 1
        \<and> totalWifiNetworks (performWiFiScan w s) = totalWifiNetworks s + 2
        \<and> currentCycleHashes (performWiFiScan w s) =
            insert (hashMAC (ephemeralSalt s) a)
              (insert (hashMAC (ephemeralSalt s) b) (currentCycleHashes s)))"
proof (intro conjI impI)
  assume "0 < scanNetworks w"
  then show "performWiFiScan w s =
        (case fold scanBody (processed w s)
                (s\<lparr>totalScansPerformed := totalScansPerformed s + 1,
                   impressionCount := impressionCount s + word_of_int (scanNetworks w)\<rparr>, 0, 0) of
           (s3, uniqueInThisScan, repeatedInThisScan) \<Rightarrow>
             s3\<lparr>wifiNetworksThisCycle := wifiNetworksThisCycle s3 + word_of_int (scanNetworks w),
                uniqueWifiNetworks := uniqueWifiNetworks s3 + word_of_int uniqueInThisScan,
                repeatedWifiNetworks := repeatedWifiNetworks s3 + word_of_int repeatedInThisScan\<rparr>)"
    by (rule performWiFiScan_fold)
next
  assume "h \<in> currentCycleHashes s"
  then show "scanBody h (s, u, r) = (s, u, r + 1)" by (rule scanBody_repeated)
next
  assume "h \<notin> currentCycleHashes s \<and> h \<notin> previousCycleHashes s"
  then show "scanBody h (s, u, r) =
          (s\<lparr>currentCycleHashes := insert h (currentCycleHashes s),
             totalWifiNetworks := totalWifiNetworks s + 1\<rparr>, u + 1, r)"
    by (simp add: scanBody_new)
next
  assume "h \<notin> currentCycleHashes s \<and> h \<in> previousCycleHashes s"
  then show "scanBody h (s, u, r) =
          (s\<lparr>currentCycleHashes := insert h (currentCycleHashes s)\<rparr>, u + 1, r)"
    by (simp add: scanBody_cycle_only)
next
  assume h: "scanNetworks w = 3 \<and> BSSID w 0 = a \<and> BSSID w 1 = a \<and> BSSID w 2 = b
        \<and> hashMAC (ephemeralSalt s) a \<noteq> hashMAC (ephemeralSalt s) b
        \<and> hashMAC (ephemeralSalt s) a \<notin> currentCycleHashes s \<union> previousCycleHashes s
        \<and> hashMAC (ephemeralSalt s) b \<notin> currentCycleHashes s \<union> previousCycleHashes s"
  have r: "uniqueWifiNetworks (performWiFiScan w s) = uniqueWifiNetworks s + 2
    \<and> repeatedWifiNetworks (performWiFiScan w s) = repeatedWifiNetworks s + 1
    \<and> totalWifiNetworks (performWiFiScan w s) = totalWifiNetworks s + 2
    \<and> currentCycleHashes (performWiFiScan w s) =
        insert (hashMAC (ephemeralSalt s) a)
          (insert (hashMAC (ephemeralSalt s) b) (currentCycleHashes s))"
    using h by (intro scan_AAB) simp_all
  from r show "uniqueWifiNetworks (performWiFiScan w s) = uniqueWifiNetworks s + 2" by simp
  from r show "repeatedWifiNetworks (performWiFiScan w s) = repeatedWifiNetworks s + 1" by simp
  from r show "totalWifiNetworks (performWiFiScan w s) = totalWifiNetworks s + 2" by simp
  from r show "currentCycleHashes (performWiFiScan w s) =
            insert (hashMAC (ephemeralSalt s) a)
              (insert (hashMAC (ephemeralSalt s) b) (currentCycleHashes s))" by simp
qed

theorem scan_classification_witness:
  "uniqueWifiNetworks (performWiFiScan (scanOf [macA, macA, macB]) readyState) = 2
   \<and> repeatedWifiNetworks (performWiFiScan (scanOf [macA, macA, macB]) readyState) = 1
   \<and> totalWifiNetworks (performWiFiScan (scanOf [macA, macA, macB]) readyState) = 2
   \<and> currentCycleHashes (performWiFiScan (scanOf [macA, macA, macB]) readyState) =
        {''82e2cdda9244612a'', ''91914de4bb6d4b8d''}
   \<and> scanBody ''82e2cdda9244612a''
        (readyState\<lparr>currentCycleHashes := {''82e2cdda9244612a''}\<rparr>, 0, 0) =
        (readyState\<lparr>currentCycleHashes := {''82e2cdda9244612a''}\<rparr>, 0, 1)
   \<and> scanBody ''82e2cdda9244612a'' (readyState, 0, 0) =
        (readyState\<lparr>currentCycleHashes := {''82e2cdda9244612a''},
           totalWifiNetworks := 1\<rparr>, 1, 0)
   \<and> scanBody ''82e2cdda9244612a''
        (readyState\<lparr>previousCycleHashes := {''82e2cdda9244612a''}\<rparr>, 0, 0) =
        (readyState\<lparr>previousCycleHashes := {''82e2cdda9244612a''},
           currentCycleHashes := {''82e2cdda9244612a''}\<rparr>, 1, 0)"
proof -
  have batch:
    "uniqueWifiNetworks (performWiFiScan (scanOf [macA, macA, macB]) readyState) = 2
     \<and> repeatedWifiNetworks (performWiFiScan (scanOf [macA, macA, macB]) readyState) = 1
     \<and> totalWifiNetworks (performWiFiScan (scanOf [macA, macA, macB]) readyState) = 2
     \<and> currentCycleHashes (performWiFiScan (scanOf [macA, macA, macB]) readyState) =
          {''82e2cdda9244612a'', ''91914de4bb6d4b8d''}"
    using scan_classification [where w = "scanOf [macA, macA, macB]" and s = readyState
        and a = macA and b = macB, THEN conjunct2, THEN conjunct2, THEN conjunct2,
        THEN conjunct2, THEN mp]
    by (simp add: hashMAC_macA hashMAC_macB)
  have rep: "scanBody ''82e2cdda9244612a''
        (readyState\<lparr>currentCycleHashes := {''82e2cdda9244612a''}\<rparr>, 0, 0) =
        (readyState\<lparr>currentCycleHashes := {''82e2cdda9244612a''}\<rparr>, 0, 1)"
    using scan_classification [where h = "''82e2cdda9244612a''"
        and s = "readyState\<lparr>currentCycleHashes := {''82e2cdda9244612a''}\<rparr>"
        and u = 0 and r = 0, THEN conjunct2, THEN conjunct1, THEN mp]
    by simp
  have new: "scanBody ''82e2cdda9244612a'' (readyState, 0, 0) =
        (readyState\<lparr>currentCycleHashes := {''82e2cdda9244612a''},
           totalWifiNetworks := 1\<rparr>, 1, 0)"
    using scan_classification [where h = "''82e2cdda9244612a''" and s = readyState
        and u = 0 and r = 0, THEN conjunct2, THEN conjunct2, THEN conjunct1, THEN mp]
    by simp
  have only: "scanBody ''82e2cdda9244612a''
        (readyState\<lparr>previousCycleHashes := {''82e2cdda9244612a''}\<rparr>, 0, 0) =
        (readyState\<lparr>previousCycleHashes := {''82e2cdda9244612a''},
           currentCycleHashes := {''82e2cdda9244612a''}\<rparr>, 1, 0)"
    using scan_classification [where h = "''82e2cdda9244612a''"
        and s = "readyState\<lparr>previousCycleHashes := {''82e2cdda9244612a''}\<rparr>"
        and u = 0 and r = 0, THEN conjunct2, THEN conjunct2, THEN conjunct2,
        THEN conjunct1, THEN mp]
    by simp
  from batch rep new only show ?thesis by (intro conjI) simp_all
qed

subsection \<open>A failed scan\<close>

text \<open>
  Claim C6, as the source has it.  When the driver returns a negative count,
  \<open>performWiFiScan\<close> increments \<open>scanErrors\<close> and, before the test, the cumulative
  \<open>totalScansPerformed\<close>; the batch is discarded and no other global changes: no
  detection counter of the cycle, not \<open>totalWifiNetworks\<close>, no hash set, not the daily
  tally.  The pass of \<open>loop\<close> that made the poll then records the time of the scan and
  advances \<open>scanCounter\<close>, so the failed poll counts towards the scans of the report
  cycle.
\<close>

theorem scan_error_effect:
  assumes "scanNetworks w < 0"
  shows "performWiFiScan w s =
      s\<lparr>totalScansPerformed := totalScansPerformed s + 1, scanErrors := scanErrors s + 1\<rparr>
    \<and> (WiFi e = w \<and> millis e - systemStartTime s < 43200000
        \<and> SCAN_INTERVAL_MS \<le> millis e - lastScanTime s
        \<and> scanCounter s + 1 < SCANS_PER_UPLOAD \<longrightarrow>
        loop e s =
          Some (s\<lparr>totalScansPerformed := totalScansPerformed s + 1,
                  scanErrors := scanErrors s + 1,
                  lastScanTime := millis e,
                  scanCounter := scanCounter s + 1\<rparr>))"
proof (intro conjI impI)
  show p: "performWiFiScan w s =
      s\<lparr>totalScansPerformed := totalScansPerformed s + 1, scanErrors := scanErrors s + 1\<rparr>"
    using assms by (rule performWiFiScan_error)
  assume h: "WiFi e = w \<and> millis e - systemStartTime s < 43200000
        \<and> SCAN_INTERVAL_MS \<le> millis e - lastScanTime s
        \<and> scanCounter s + 1 < SCANS_PER_UPLOAD"
  then have "\<not> 43200000 \<le> millis e - systemStartTime s"
    and "\<not> SCANS_PER_UPLOAD \<le> scanCounter s + 1"
    by (simp_all add: not_le)
  with h show "loop e s =
          Some (s\<lparr>totalScansPerformed := totalScansPerformed s + 1,
                  scanErrors := scanErrors s + 1,
                  lastScanTime := millis e,
                  scanCounter := scanCounter s + 1\<rparr>)"
    by (simp add: loop_def Let_def p)
qed

theorem scan_error_effect_witness:
  "scanNetworks failedScan < 0
   \<and> performWiFiScan failedScan readyState =
       readyState\<lparr>totalScansPerformed := 1, scanErrors := 1\<rparr>
   \<and> loop (nextDayEnv\<lparr>WiFi := failedScan\<rparr>) readyState =
       Some (readyState\<lparr>totalScansPerformed := 1, scanErrors := 1,
               lastScanTime := 60000, scanCounter := 1\<rparr>)"
proof -
  have neg: "scanNetworks failedScan < 0" by simp
  note t = scan_error_effect [OF neg, where s = readyState
      and e = "nextDayEnv\<lparr>WiFi := failedScan\<rparr>"]
  have a: "performWiFiScan failedScan readyState =
       readyState\<lparr>totalScansPerformed := 1, scanErrors := 1\<rparr>"
    using t [THEN conjunct1] by simp
  have b: "loop (nextDayEnv\<lparr>WiFi := failedScan\<rparr>) readyState =
       Some (readyState\<lparr>totalScansPerformed := 1, scanErrors := 1,
               lastScanTime := 60000, scanCounter := 1\<rparr>)"
    using t [THEN conjunct2, THEN mp]
    by (simp add: SCAN_INTERVAL_MS_def SCANS_PER_UPLOAD_def)
  from neg a b show ?thesis by (intro conjI)
qed

text \<open>
  The claim as written fails: the failed poll changes the cumulative scan counter.
\<close>

theorem scan_error_counts_as_scan:
  "scanNetworks failedScan < 0
   \<and> totalScansPerformed (performWiFiScan failedScan readyState)
       \<noteq> totalScansPerformed readyState
   \<and> totalScansPerformed readyState = 0
   \<and> totalScansPerformed (performWiFiScan failedScan readyState) = 1"
  by (simp add: performWiFiScan_error)

subsection \<open>The safety cap\<close>

text \<open>
  Claim C10.  A scan that finds more than 20 networks treats the first 20 entries of the
  driver's table exactly as a scan of 20 networks would (the same fingerprints are computed,
  classified and inserted), but adds the full number found to \<open>impressionCount\<close> and to
  \<open>wifiNetworksThisCycle\<close>; the classified detections of such a scan number 20.  A scan of
  at most 20 networks classifies every detection.  So from the start of a cycle, one scan
  above the cap leaves \<open>uniqueWifiNetworks + repeatedWifiNetworks\<close> strictly below
  \<open>wifiNetworksThisCycle\<close>.
\<close>

theorem safety_cap:
  "(20 < scanNetworks w \<longrightarrow>
      performWiFiScan w s =
        (performWiFiScan (w\<lparr>scanNetworks := 20\<rparr>) s)
          \<lparr>impressionCount := impressionCount s + word_of_int (scanNetworks w),
           wifiNetworksThisCycle := wifiNetworksThisCycle s + word_of_int (scanNetworks w)\<rparr>
      \<and> currentCycleHashes (performWiFiScan w s) =
          currentCycleHashes s \<union> (\<lambda>k. hashMAC (ephemeralSalt s) (BSSID w k)) ` {0..<20}
      \<and> uniqueWifiNetworks (performWiFiScan w s) + repeatedWifiNetworks (performWiFiScan w s)
          = uniqueWifiNetworks s + repeatedWifiNetworks s + 20)
   \<and> (0 < scanNetworks w \<and> scanNetworks w \<le> 20 \<longrightarrow>
        uniqueWifiNetworks (performWiFiScan w s) + repeatedWifiNetworks (performWiFiScan w s)
          = uniqueWifiNetworks s + repeatedWifiNetworks s + word_of_int (scanNetworks w)
        \<and> wifiNetworksThisCycle (performWiFiScan w s)
          = wifiNetworksThisCycle s + word_of_int (scanNetworks w)
        \<and> currentCycleHashes (performWiFiScan w s) =
            currentCycleHashes s \<union>
              (\<lambda>k. hashMAC (ephemeralSalt s) (BSSID w k)) ` {0..<nat (scanNetworks w)})
   \<and> (20 < scanNetworks w \<and> scanNetworks w < 2 ^ 32
        \<and> wifiNetworksThisCycle s = 0 \<and> uniqueWifiNetworks s = 0 \<and> repeatedWifiNetworks s = 0 \<longrightarrow>
        uniqueWifiNetworks (performWiFiScan w s) + repeatedWifiNetworks (performWiFiScan w s)
          < wifiNetworksThisCycle (performWiFiScan w s))"
proof (intro conjI impI)
  assume big: "20 < scanNetworks w"
  then have pos: "0 < scanNetworks w" by simp
  show "performWiFiScan w s =
        (performWiFiScan (w\<lparr>scanNetworks := 20\<rparr>) s)
          \<lparr>impressionCount := impressionCount s + word_of_int (scanNetworks w),
           wifiNetworksThisCycle := wifiNetworksThisCycle s + word_of_int (scanNetworks w)\<rparr>"
    using big by (rule performWiFiScan_capped)
  show "currentCycleHashes (performWiFiScan w s) =
          currentCycleHashes s \<union> (\<lambda>k. hashMAC (ephemeralSalt s) (BSSID w k)) ` {0..<20}"
    by (simp add: performWiFiScan_found [OF pos] processed_capped(1) [OF big])
  show "uniqueWifiNetworks (performWiFiScan w s) + repeatedWifiNetworks (performWiFiScan w s)
          = uniqueWifiNetworks s + repeatedWifiNetworks s + 20"
    using big by (simp add: performWiFiScan_accounted [OF pos] length_processed)
next
  assume small: "0 < scanNetworks w \<and> scanNetworks w \<le> 20"
  then have pos: "0 < scanNetworks w" by simp
  from small have len: "length (processed w s) = nat (scanNetworks w)"
    by (simp add: length_processed min_def)
  show "uniqueWifiNetworks (performWiFiScan w s) + repeatedWifiNetworks (performWiFiScan w s)
          = uniqueWifiNetworks s + repeatedWifiNetworks s + word_of_int (scanNetworks w)"
    using pos by (simp add: performWiFiScan_accounted [OF pos] len)
  show "wifiNetworksThisCycle (performWiFiScan w s)
          = wifiNetworksThisCycle s + word_of_int (scanNetworks w)"
    by (simp add: performWiFiScan_found [OF pos])
  show "currentCycleHashes (performWiFiScan w s) =
            currentCycleHashes s \<union>
              (\<lambda>k. hashMAC (ephemeralSalt s) (BSSID w k)) ` {0..<nat (scanNetworks w)}"
    using small
    by (simp add: performWiFiScan_found [OF pos] processed_def MAX_NETWORKS_PER_SCAN_def min_def)
next
  assume h: "20 < scanNetworks w \<and> scanNetworks w < 2 ^ 32
        \<and> wifiNetworksThisCycle s = 0 \<and> uniqueWifiNetworks s = 0 \<and> repeatedWifiNetworks s = 0"
  then have pos: "0 < scanNetworks w" by simp
  have l: "uniqueWifiNetworks (performWiFiScan w s) + repeatedWifiNetworks (performWiFiScan w s)
      = 20"
    using h by (simp add: performWiFiScan_accounted [OF pos] length_processed)
  have r: "wifiNetworksThisCycle (performWiFiScan w s) = word_of_int (scanNetworks w)"
    using h by (simp add: performWiFiScan_found [OF pos])
  from h have "(20 :: u32) < word_of_int (scanNetworks w)"
    by (intro cap_less) simp_all
  then show "uniqueWifiNetworks (performWiFiScan w s) + repeatedWifiNetworks (performWiFiScan w s)
          < wifiNetworksThisCycle (performWiFiScan w s)"
    by (simp only: l r)
qed

theorem safety_cap_witness:
  "(20 :: int) < scanNetworks crowdedScan
   \<and> wifiNetworksThisCycle (performWiFiScan crowdedScan readyState) = 25
   \<and> impressionCount (performWiFiScan crowdedScan readyState) = 25
   \<and> uniqueWifiNetworks (performWiFiScan crowdedScan readyState)
       + repeatedWifiNetworks (performWiFiScan crowdedScan readyState) = 20
   \<and> uniqueWifiNetworks (performWiFiScan crowdedScan readyState)
       + repeatedWifiNetworks (performWiFiScan crowdedScan readyState)
       < wifiNetworksThisCycle (performWiFiScan crowdedScan readyState)
   \<and> currentCycleHashes (performWiFiScan crowdedScan readyState) = {''82e2cdda9244612a''}
   \<and> uniqueWifiNetworks (performWiFiScan (scanOf [macA, macA, macB]) readyState)
       + repeatedWifiNetworks (performWiFiScan (scanOf [macA, macA, macB]) readyState) = 3
   \<and> wifiNetworksThisCycle (performWiFiScan (scanOf [macA, macA, macB]) readyState) = 3"
proof -
  note big = safety_cap [where w = crowdedScan and s = readyState, THEN conjunct1, THEN mp]
  note less = safety_cap [where w = crowdedScan and s = readyState,
      THEN conjunct2, THEN conjunct2, THEN mp]
  note small = safety_cap [where w = "scanOf [macA, macA, macB]" and s = readyState,
      THEN conjunct2, THEN conjunct1, THEN mp]
  have h: "(20 :: int) < scanNetworks crowdedScan" by simp
  have w: "wifiNetworksThisCycle (performWiFiScan crowdedScan readyState) = 25"
    and i: "impressionCount (performWiFiScan crowdedScan readyState) = 25"
    by (subst big [OF h, THEN conjunct1], simp)+
  have c: "currentCycleHashes (performWiFiScan crowdedScan readyState) = {''82e2cdda9244612a''}"
    using big [OF h, THEN conjunct2, THEN conjunct1]
    by (simp add: hashMAC_macA image_constant_conv)
  have a: "uniqueWifiNetworks (performWiFiScan crowdedScan readyState)
       + repeatedWifiNetworks (performWiFiScan crowdedScan readyState) = 20"
    using big [OF h, THEN conjunct2, THEN conjunct2] by simp
  have l: "uniqueWifiNetworks (performWiFiScan crowdedScan readyState)
       + repeatedWifiNetworks (performWiFiScan crowdedScan readyState)
       < wifiNetworksThisCycle (performWiFiScan crowdedScan readyState)"
    by (rule less) simp
  have s: "uniqueWifiNetworks (performWiFiScan (scanOf [macA, macA, macB]) readyState)
       + repeatedWifiNetworks (performWiFiScan (scanOf [macA, macA, macB]) readyState) = 3
     \<and> wifiNetworksThisCycle (performWiFiScan (scanOf [macA, macA, macB]) readyState) = 3"
    using small by simp
  from h w i a l c s show ?thesis by (intro conjI) simp_all
qed

subsection \<open>Recording a scan and the daily tally\<close>

text \<open>
  Claim C3, as the source has it.  A scan that finds \<open>networksFound > 0\<close> networks adds
  that raw number to \<open>wifiNetworksThisCycle\<close> and to the per-cycle \<open>impressionCount\<close>, and
  adds the numbers of fingerprints it classified as unique and as repeated to
  \<open>uniqueWifiNetworks\<close> and \<open>repeatedWifiNetworks\<close>.  The scan does not touch
  \<open>dailyImpressions\<close>: the raw detections of the whole cycle reach the daily tally once,
  at the start of \<open>reportAnalytics\<close>, which adds \<open>impressionCount\<close> to it (unless the
  same report detects a new day and replaces the tally).
\<close>

theorem record_scan:
  "(0 < scanNetworks w \<longrightarrow>
      wifiNetworksThisCycle (performWiFiScan w s)
        = wifiNetworksThisCycle s + word_of_int (scanNetworks w)
      \<and> impressionCount (performWiFiScan w s)
        = impressionCount s + word_of_int (scanNetworks w)
      \<and> uniqueWifiNetworks (performWiFiScan w s)
        = uniqueWifiNetworks s +
          of_nat (length (firstSeen (currentCycleHashes s) (processed w s)))
      \<and> repeatedWifiNetworks (performWiFiScan w s)
        = repeatedWifiNetworks s +
          of_nat (length (processed w s) -
                  length (firstSeen (currentCycleHashes s) (processed w s))))
   \<and> dailyImpressions (performWiFiScan w s) = dailyImpressions s
   \<and> (\<not> dayChanged e s \<longrightarrow>
        dailyImpressions (reportAnalytics e s) = dailyImpressions s + impressionCount s)"
proof (intro conjI impI)
  assume pos: "0 < scanNetworks w"
  show "wifiNetworksThisCycle (performWiFiScan w s)
        = wifiNetworksThisCycle s + word_of_int (scanNetworks w)"
    and "impressionCount (performWiFiScan w s)
        = impressionCount s + word_of_int (scanNetworks w)"
    and "uniqueWifiNetworks (performWiFiScan w s)
        = uniqueWifiNetworks s +
          of_nat (length (firstSeen (currentCycleHashes s) (processed w s)))"
    and "repeatedWifiNetworks (performWiFiScan w s)
        = repeatedWifiNetworks s +
          of_nat (length (processed w s) -
                  length (firstSeen (currentCycleHashes s) (processed w s)))"
    by (simp_all add: performWiFiScan_found [OF pos])
next
  show "dailyImpressions (performWiFiScan w s) = dailyImpressions s" by simp
next
  assume "\<not> dayChanged e s"
  then show "dailyImpressions (reportAnalytics e s) = dailyImpressions s + impressionCount s"
    by (simp add: reportAnalytics_daily)
qed

theorem record_scan_witness:
  "wifiNetworksThisCycle (performWiFiScan (scanOf [macA, macA, macB]) readyState) = 3
   \<and> impressionCount (performWiFiScan (scanOf [macA, macA, macB]) readyState) = 3
   \<and> uniqueWifiNetworks (performWiFiScan (scanOf [macA, macA, macB]) readyState) = 2
   \<and> repeatedWifiNetworks (performWiFiScan (scanOf [macA, macA, macB]) readyState) = 1
   \<and> dailyImpressions (performWiFiScan (scanOf [macA, macA, macB]) readyState) = 0
   \<and> dailyImpressions
        (reportAnalytics (nextDayEnv\<lparr>getTimeFromSIM7600 := ''2025-12-02 23:59:40 UTC''\<rparr>)
          (readyState\<lparr>dailyImpressions := 42, impressionCount := 3\<rparr>)) = 45"
proof -
  note scan = record_scan [where w = "scanOf [macA, macA, macB]" and s = readyState,
      THEN conjunct1, THEN mp]
  note daily = record_scan [where w = "scanOf [macA, macA, macB]" and s = readyState,
      THEN conjunct2, THEN conjunct1]
  note report = record_scan [
      where e = "nextDayEnv\<lparr>getTimeFromSIM7600 := ''2025-12-02 23:59:40 UTC''\<rparr>"
        and s = "readyState\<lparr>dailyImpressions := 42, impressionCount := 3\<rparr>",
      THEN conjunct2, THEN conjunct2, THEN mp]
  have p: "processed (scanOf [macA, macA, macB]) readyState =
      [''82e2cdda9244612a'', ''82e2cdda9244612a'', ''91914de4bb6d4b8d'']"
    by (simp add: processed_scanOf hashMAC_macA hashMAC_macB)
  have a: "wifiNetworksThisCycle (performWiFiScan (scanOf [macA, macA, macB]) readyState) = 3
   \<and> impressionCount (performWiFiScan (scanOf [macA, macA, macB]) readyState) = 3
   \<and> uniqueWifiNetworks (performWiFiScan (scanOf [macA, macA, macB]) readyState) = 2
   \<and> repeatedWifiNetworks (performWiFiScan (scanOf [macA, macA, macB]) readyState) = 1"
    using scan by (simp add: p)
  have b: "dailyImpressions (performWiFiScan (scanOf [macA, macA, macB]) readyState) = 0"
    using daily by simp
  have c: "dailyImpressions
        (reportAnalytics (nextDayEnv\<lparr>getTimeFromSIM7600 := ''2025-12-02 23:59:40 UTC''\<rparr>)
          (readyState\<lparr>dailyImpressions := 42, impressionCount := 3\<rparr>)) = 45"
    using report by (simp add: dayChanged_def)
  from a b c show ?thesis by (intro conjI) simp_all
qed

text \<open>
  The claim as written fails: after a scan of three networks the daily tally is what it
  was, not three more.
\<close>

theorem scan_leaves_daily_tally:
  "0 < scanNetworks (scanOf [macA, macA, macB])
   \<and> dailyImpressions (performWiFiScan (scanOf [macA, macA, macB]) readyState)
       \<noteq> dailyImpressions readyState + word_of_int (scanNetworks (scanOf [macA, macA, macB]))
   \<and> scanNetworks (scanOf [macA, macA, macB]) = 3
   \<and> dailyImpressions readyState = 0
   \<and> dailyImpressions (performWiFiScan (scanOf [macA, macA, macB]) readyState) = 0"
  by simp

subsection \<open>Day rollover\<close>

text \<open>
  Claim C4, as the source has it.  When the database client is ready at report time and
  the time read is valid (its date is not \<open>Unknown\<close> and it is not the sentinel
  \<open>Time unavailable\<close>) with a date different from the non-empty stored date, the stored
  date becomes that date, and the daily tally becomes the value fetched from the database
  at the path of the new date if the fetch reported no error and the value is greater than
  0, and 0 otherwise; the tally of the day before and the detections just added to it are
  discarded.
\<close>

theorem day_rollover:
  assumes "appReady e"
    and "extractDateFromDateTime (getTimeFromSIM7600 e) \<noteq> ''Unknown''"
    and "getTimeFromSIM7600 e \<noteq> ''Time unavailable''"
    and "extractDateFromDateTime (getTimeFromSIM7600 e) \<noteq> currentDate s"
    and "currentDate s \<noteq> []"
  shows "currentDate (reportAnalytics e s) = extractDateFromDateTime (getTimeFromSIM7600 e)
    \<and> dailyImpressions (reportAnalytics e s) =
        (case databaseGet e
                (''/devices/'' @ combinedBillboardId s @ ''/data/'' @
                 extractDateFromDateTime (getTimeFromSIM7600 e) @ ''/daily_impressions'') of
           (existingImpressions, errorCode) \<Rightarrow>
             if errorCode = 0 \<and> existingImpressions > 0
             then word_of_int existingImpressions else 0)"
proof -
  from assms have d: "dayChanged e s" by (simp add: dayChanged_def)
  have "currentDate (reportAnalytics e s) = extractDateFromDateTime (getTimeFromSIM7600 e)"
    using assms by (simp add: reportAnalytics_date)
  moreover have "dailyImpressions (reportAnalytics e s) =
        (case databaseGet e
                (''/devices/'' @ combinedBillboardId s @ ''/data/'' @
                 extractDateFromDateTime (getTimeFromSIM7600 e) @ ''/daily_impressions'') of
           (existingImpressions, errorCode) \<Rightarrow>
             if errorCode = 0 \<and> existingImpressions > 0
             then word_of_int existingImpressions else 0)"
    using d by (simp add: reportAnalytics_daily impressionsPathOf_def)
  ultimately show ?thesis by simp
qed

theorem day_rollover_witness:
  "currentDate (reportAnalytics nextDayEnv
      (readyState\<lparr>dailyImpressions := 17, impressionCount := 5\<rparr>)) = ''2025-12-03''
   \<and> dailyImpressions (reportAnalytics nextDayEnv
      (readyState\<lparr>dailyImpressions := 17, impressionCount := 5\<rparr>)) = 0
   \<and> currentDate (reportAnalytics storedTallyEnv
      (readyState\<lparr>dailyImpressions := 17, impressionCount := 5\<rparr>)) = ''2025-12-03''
   \<and> dailyImpressions (reportAnalytics storedTallyEnv
      (readyState\<lparr>dailyImpressions := 17, impressionCount := 5\<rparr>)) = 42"
proof -
  have a: "currentDate (reportAnalytics nextDayEnv
      (readyState\<lparr>dailyImpressions := 17, impressionCount := 5\<rparr>)) = ''2025-12-03''
   \<and> dailyImpressions (reportAnalytics nextDayEnv
      (readyState\<lparr>dailyImpressions := 17, impressionCount := 5\<rparr>)) = 0"
    using day_rollover [where e = nextDayEnv
        and s = "readyState\<lparr>dailyImpressions := 17, impressionCount := 5\<rparr>"]
    by simp
  have b: "currentDate (reportAnalytics storedTallyEnv
      (readyState\<lparr>dailyImpressions := 17, impressionCount := 5\<rparr>)) = ''2025-12-03''
   \<and> dailyImpressions (reportAnalytics storedTallyEnv
      (readyState\<lparr>dailyImpressions := 17, impressionCount := 5\<rparr>)) = 42"
    using day_rollover [where e = storedTallyEnv
        and s = "readyState\<lparr>dailyImpressions := 17, impressionCount := 5\<rparr>"]
    by simp
  from a b show ?thesis by (intro conjI) simp_all
qed

text \<open>
  The claim as written fails when the database client is not ready: the modem's clock
  shows the next day, and the stored date and the running tally stay.
\<close>

theorem day_rollover_needs_ready_client:
  "getTimeFromSIM7600 (nextDayEnv\<lparr>appReady := False\<rparr>) = ''2025-12-03 00:00:05 UTC''
   \<and> extractDateFromDateTime (getTimeFromSIM7600 (nextDayEnv\<lparr>appReady := False\<rparr>)) = ''2025-12-03''
   \<and> currentDate (readyState\<lparr>dailyImpressions := 17, impressionCount := 5\<rparr>) = ''2025-12-02''
   \<and> currentDate (reportAnalytics (nextDayEnv\<lparr>appReady := False\<rparr>)
        (readyState\<lparr>dailyImpressions := 17, impressionCount := 5\<rparr>))
       \<noteq> extractDateFromDateTime (getTimeFromSIM7600 (nextDayEnv\<lparr>appReady := False\<rparr>))
   \<and> currentDate (reportAnalytics (nextDayEnv\<lparr>appReady := False\<rparr>)
        (readyState\<lparr>dailyImpressions := 17, impressionCount := 5\<rparr>)) = ''2025-12-02''
   \<and> dailyImpressions (reportAnalytics (nextDayEnv\<lparr>appReady := False\<rparr>)
        (readyState\<lparr>dailyImpressions := 17, impressionCount := 5\<rparr>)) = 22"
  by (simp add: reportAnalytics_date reportAnalytics_daily dayChanged_def)

subsection \<open>A report without the time\<close>

text \<open>
  Claim C5, as the source has it.  When the time source answers with the sentinel
  \<open>Time unavailable\<close>, \<open>reportAnalytics\<close> issues no \<open>Database.set\<close> call and does not
  reach the upload block, the only place where the report JSON is composed: what it does
  is count the report, add the cycle's \<open>impressionCount\<close> to \<open>dailyImpressions\<close>, refresh
  the GPS position and, when the database client is ready, store the sentinel in
  \<open>currentDateTime\<close>.  The stored date stays, and the daily tally is not replaced.  The
  pass of \<open>loop\<close> that ends the cycle then moves \<open>currentCycleHashes\<close> to
  \<open>previousCycleHashes\<close>, empties \<open>currentCycleHashes\<close> and zeroes the cycle counters.
\<close>

theorem time_unavailable_skip:
  assumes "getTimeFromSIM7600 e = ''Time unavailable''"
  shows "reportAnalytics e s =
      (case updateGPSLocation e of
         Some (lat, lon) \<Rightarrow>
           s\<lparr>reportCounter := reportCounter s + 1,
             totalReportsGenerated := totalReportsGenerated s + 1,
             dailyImpressions := dailyImpressions s + impressionCount s,
             gpsLatitude := lat, gpsLongitude := lon, gpsFixAcquired := True,
             currentDateTime :=
               (if appReady e then ''Time unavailable'' else currentDateTime s)\<rparr>
       | None \<Rightarrow>
           s\<lparr>reportCounter := reportCounter s + 1,
             totalReportsGenerated := totalReportsGenerated s + 1,
             dailyImpressions := dailyImpressions s + impressionCount s,
             currentDateTime :=
               (if appReady e then ''Time unavailable'' else currentDateTime s)\<rparr>)
    \<and> databaseSet (reportAnalytics e s) = databaseSet s
    \<and> totalDataSent (reportAnalytics e s) = totalDataSent s
    \<and> currentDate (reportAnalytics e s) = currentDate s
    \<and> dailyImpressions (reportAnalytics e s) = dailyImpressions s + impressionCount s
    \<and> (millis e - systemStartTime s < 43200000
        \<and> SCAN_INTERVAL_MS \<le> millis e - lastScanTime s
        \<and> SCANS_PER_UPLOAD \<le> scanCounter s + 1 \<longrightarrow>
        (case loop e s of
           None \<Rightarrow> False
         | Some s' \<Rightarrow>
             previousCycleHashes s' = currentCycleHashes (performWiFiScan (WiFi e) s)
             \<and> currentCycleHashes s' = {}
             \<and> wifiNetworksThisCycle s' = 0 \<and> repeatedWifiNetworks s' = 0
             \<and> uniqueWifiNetworks s' = 0 \<and> impressionCount s' = 0 \<and> scanCounter s' = 0
             \<and> databaseSet s' = databaseSet s
             \<and> currentDate s' = currentDate s
             \<and> dailyImpressions s' =
                 dailyImpressions s + impressionCount (performWiFiScan (WiFi e) s)))"
proof (intro conjI impI)
  show "reportAnalytics e s =
      (case updateGPSLocation e of
         Some (lat, lon) \<Rightarrow>
           s\<lparr>reportCounter := reportCounter s + 1,
             totalReportsGenerated := totalReportsGenerated s + 1,
             dailyImpressions := dailyImpressions s + impressionCount s,
             gpsLatitude := lat, gpsLongitude := lon, gpsFixAcquired := True,
             currentDateTime :=
               (if appReady e then ''Time unavailable'' else currentDateTime s)\<rparr>
       | None \<Rightarrow>
           s\<lparr>reportCounter := reportCounter s + 1,
             totalReportsGenerated := totalReportsGenerated s + 1,
             dailyImpressions := dailyImpressions s + impressionCount s,
             currentDateTime :=
               (if appReady e then ''Time unavailable'' else currentDateTime s)\<rparr>)"
    using assms by (simp add: reportAnalytics_def Let_def split: option.splits)
  show "databaseSet (reportAnalytics e s) = databaseSet s"
    using assms by (rule reportAnalytics_unavailable)
  show "totalDataSent (reportAnalytics e s) = totalDataSent s"
    using assms by (rule reportAnalytics_unavailable)
  show "currentDate (reportAnalytics e s) = currentDate s"
    using assms by (simp add: reportAnalytics_date)
  show "dailyImpressions (reportAnalytics e s) = dailyImpressions s + impressionCount s"
    using assms by (simp add: reportAnalytics_daily dayChanged_def)
next
  assume "millis e - systemStartTime s < 43200000
        \<and> SCAN_INTERVAL_MS \<le> millis e - lastScanTime s
        \<and> SCANS_PER_UPLOAD \<le> scanCounter s + 1"
  then have l: "loop e s =
       Some (resetCycle (reportAnalytics e
         ((performWiFiScan (WiFi e) s)\<lparr>lastScanTime := millis e,
            scanCounter := scanCounter s + 1\<rparr>)))"
    by (simp add: loop_cycle_end)
  show "case loop e s of
           None \<Rightarrow> False
         | Some s' \<Rightarrow>
             previousCycleHashes s' = currentCycleHashes (performWiFiScan (WiFi e) s)
             \<and> currentCycleHashes s' = {}
             \<and> wifiNetworksThisCycle s' = 0 \<and> repeatedWifiNetworks s' = 0
             \<and> uniqueWifiNetworks s' = 0 \<and> impressionCount s' = 0 \<and> scanCounter s' = 0
             \<and> databaseSet s' = databaseSet s
             \<and> currentDate s' = currentDate s
             \<and> dailyImpressions s' =
                 dailyImpressions s + impressionCount (performWiFiScan (WiFi e) s)"
    using assms
    by (simp add: l reportAnalytics_unavailable reportAnalytics_date reportAnalytics_daily
        dayChanged_def)
qed

theorem time_unavailable_skip_witness:
  "getTimeFromSIM7600 noTimeEnv = ''Time unavailable''
   \<and> databaseSet (reportAnalytics noTimeEnv ninthScanState) = []
   \<and> currentDate (reportAnalytics noTimeEnv ninthScanState) = ''2025-12-02''
   \<and> dailyImpressions (reportAnalytics noTimeEnv ninthScanState) = 21
   \<and> map_option previousCycleHashes (loop noTimeEnv ninthScanState) =
       Some {''82e2cdda9244612a'', ''91914de4bb6d4b8d''}
   \<and> map_option currentCycleHashes (loop noTimeEnv ninthScanState) = Some {}
   \<and> map_option impressionCount (loop noTimeEnv ninthScanState) = Some 0
   \<and> map_option scanCounter (loop noTimeEnv ninthScanState) = Some 0
   \<and> map_option databaseSet (loop noTimeEnv ninthScanState) = Some []
   \<and> map_option currentDate (loop noTimeEnv ninthScanState) = Some ''2025-12-02''
   \<and> map_option dailyImpressions (loop noTimeEnv ninthScanState) = Some 22"
proof -
  have h: "getTimeFromSIM7600 noTimeEnv = ''Time unavailable''" by simp
  note t = time_unavailable_skip [OF h, where s = ninthScanState]
  have a: "databaseSet (reportAnalytics noTimeEnv ninthScanState) = []"
    using t [THEN conjunct2, THEN conjunct1] by simp
  have b: "currentDate (reportAnalytics noTimeEnv ninthScanState) = ''2025-12-02''"
    using t [THEN conjunct2, THEN conjunct2, THEN conjunct2, THEN conjunct1] by simp
  have c: "dailyImpressions (reportAnalytics noTimeEnv ninthScanState) = 21"
    using t [THEN conjunct2, THEN conjunct2, THEN conjunct2, THEN conjunct2, THEN conjunct1]
    by simp
  have d: "case loop noTimeEnv ninthScanState of
           None \<Rightarrow> False
         | Some s' \<Rightarrow>
             previousCycleHashes s' = {''82e2cdda9244612a'', ''91914de4bb6d4b8d''}
             \<and> currentCycleHashes s' = {}
             \<and> wifiNetworksThisCycle s' = 0 \<and> repeatedWifiNetworks s' = 0
             \<and> uniqueWifiNetworks s' = 0 \<and> impressionCount s' = 0 \<and> scanCounter s' = 0
             \<and> databaseSet s' = []
             \<and> currentDate s' = ''2025-12-02''
             \<and> dailyImpressions s' = 22"
    using t [THEN conjunct2, THEN conjunct2, THEN conjunct2, THEN conjunct2, THEN conjunct2,
        THEN mp]
    by (simp add: SCAN_INTERVAL_MS_def SCANS_PER_UPLOAD_def scan_macA_ninth
        split: option.splits)
  from h a b c d show ?thesis by (simp split: option.splits)
qed

text \<open>
  The claim as written fails: the report step of a cycle without the time adds the
  cycle's four detections to the daily tally.
\<close>

theorem time_unavailable_adds_to_tally:
  "getTimeFromSIM7600 noTimeEnv = ''Time unavailable''
   \<and> dailyImpressions (reportAnalytics noTimeEnv ninthScanState)
       \<noteq> dailyImpressions ninthScanState
   \<and> dailyImpressions ninthScanState = 17
   \<and> dailyImpressions (reportAnalytics noTimeEnv ninthScanState) = 21"
  by (simp add: reportAnalytics_daily dayChanged_def)

subsection \<open>The cycle reset\<close>

text \<open>
  Claim C7.  The reset at the end of a report cycle zeroes \<open>wifiNetworksThisCycle\<close>,
  \<open>repeatedWifiNetworks\<close>, \<open>uniqueWifiNetworks\<close>, \<open>impressionCount\<close> and \<open>scanCounter\<close> and
  leaves \<open>totalWifiNetworks\<close>, \<open>totalScansPerformed\<close> and \<open>totalReportsGenerated\<close> as they
  are; the pass of \<open>loop\<close> that ends a cycle returns with the five cycle counters at 0 and
  the three cumulative ones at their values after the scan and the report.  No pass of
  \<open>loop\<close> sets a cumulative counter back: every pass that returns leaves
  \<open>totalScansPerformed\<close> and \<open>totalReportsGenerated\<close> unchanged or one higher, and adds at
  most 20 to \<open>totalWifiNetworks\<close>.
\<close>

theorem cycle_reset_frame:
  "wifiNetworksThisCycle (resetCycle s) = 0
   \<and> repeatedWifiNetworks (resetCycle s) = 0
   \<and> uniqueWifiNetworks (resetCycle s) = 0
   \<and> impressionCount (resetCycle s) = 0
   \<and> scanCounter (resetCycle s) = 0
   \<and> totalWifiNetworks (resetCycle s) = totalWifiNetworks s
   \<and> totalScansPerformed (resetCycle s) = totalScansPerformed s
   \<and> totalReportsGenerated (resetCycle s) = totalReportsGenerated s
   \<and> (millis e - systemStartTime s < 43200000
       \<and> SCAN_INTERVAL_MS \<le> millis e - lastScanTime s
       \<and> SCANS_PER_UPLOAD \<le> scanCounter s + 1 \<longrightarrow>
       (case loop e s of
          None \<Rightarrow> False
        | Some s' \<Rightarrow>
            wifiNetworksThisCycle s' = 0 \<and> repeatedWifiNetworks s' = 0
            \<and> uniqueWifiNetworks s' = 0 \<and> impressionCount s' = 0 \<and> scanCounter s' = 0
            \<and> totalWifiNetworks s' = totalWifiNetworks (performWiFiScan (WiFi e) s)
            \<and> totalScansPerformed s' = totalScansPerformed s + 1
            \<and> totalReportsGenerated s' = totalReportsGenerated s + 1))
   \<and> (loop e s = Some s' \<longrightarrow>
        (totalScansPerformed s' = totalScansPerformed s
           \<or> totalScansPerformed s' = totalScansPerformed s + 1)
        \<and> (totalReportsGenerated s' = totalReportsGenerated s
           \<or> totalReportsGenerated s' = totalReportsGenerated s + 1)
        \<and> (\<exists>k\<le>20. totalWifiNetworks s' = totalWifiNetworks s + of_nat k))"
proof -
  have reset: "wifiNetworksThisCycle (resetCycle s) = 0
   \<and> repeatedWifiNetworks (resetCycle s) = 0
   \<and> uniqueWifiNetworks (resetCycle s) = 0
   \<and> impressionCount (resetCycle s) = 0
   \<and> scanCounter (resetCycle s) = 0
   \<and> totalWifiNetworks (resetCycle s) = totalWifiNetworks s
   \<and> totalScansPerformed (resetCycle s) = totalScansPerformed s
   \<and> totalReportsGenerated (resetCycle s) = totalReportsGenerated s"
    by simp
  have cycle: "millis e - systemStartTime s < 43200000
       \<and> SCAN_INTERVAL_MS \<le> millis e - lastScanTime s
       \<and> SCANS_PER_UPLOAD \<le> scanCounter s + 1 \<longrightarrow>
       (case loop e s of
          None \<Rightarrow> False
        | Some s' \<Rightarrow>
            wifiNetworksThisCycle s' = 0 \<and> repeatedWifiNetworks s' = 0
            \<and> uniqueWifiNetworks s' = 0 \<and> impressionCount s' = 0 \<and> scanCounter s' = 0
            \<and> totalWifiNetworks s' = totalWifiNetworks (performWiFiScan (WiFi e) s)
            \<and> totalScansPerformed s' = totalScansPerformed s + 1
            \<and> totalReportsGenerated s' = totalReportsGenerated s + 1)"
    by (simp add: loop_cycle_end)
  have never: "loop e s = Some s' \<longrightarrow>
        (totalScansPerformed s' = totalScansPerformed s
           \<or> totalScansPerformed s' = totalScansPerformed s + 1)
        \<and> (totalReportsGenerated s' = totalReportsGenerated s
           \<or> totalReportsGenerated s' = totalReportsGenerated s + 1)
        \<and> (\<exists>k\<le>20. totalWifiNetworks s' = totalWifiNetworks s + of_nat k)"
  proof
    assume "loop e s = Some s'"
    then show "(totalScansPerformed s' = totalScansPerformed s
           \<or> totalScansPerformed s' = totalScansPerformed s + 1)
        \<and> (totalReportsGenerated s' = totalReportsGenerated s
           \<or> totalReportsGenerated s' = totalReportsGenerated s + 1)
        \<and> (\<exists>k\<le>20. totalWifiNetworks s' = totalWifiNetworks s + of_nat k)"
    proof (cases rule: loop_cases)
      case idle
      have "totalWifiNetworks s = totalWifiNetworks s + of_nat 0" by simp
      then have "\<exists>k\<le>20. totalWifiNetworks s = totalWifiNetworks s + of_nat k" by blast
      with idle show ?thesis by simp
    next
      case scan
      with performWiFiScan_total [of "WiFi e" s] show ?thesis by simp
    next
      case cycle_end
      with performWiFiScan_total [of "WiFi e" s] show ?thesis by simp
    qed
  qed
  from reset cycle never show ?thesis by (intro conjI) simp_all
qed

theorem cycle_reset_frame_witness:
  "map_option wifiNetworksThisCycle (loop sameDayEnv ninthScanState) = Some 0
   \<and> map_option repeatedWifiNetworks (loop sameDayEnv ninthScanState) = Some 0
   \<and> map_option uniqueWifiNetworks (loop sameDayEnv ninthScanState) = Some 0
   \<and> map_option impressionCount (loop sameDayEnv ninthScanState) = Some 0
   \<and> map_option scanCounter (loop sameDayEnv ninthScanState) = Some 0
   \<and> map_option totalWifiNetworks (loop sameDayEnv ninthScanState) = Some 2
   \<and> map_option totalScansPerformed (loop sameDayEnv ninthScanState) = Some 10
   \<and> map_option totalReportsGenerated (loop sameDayEnv ninthScanState) = Some 1
   \<and> (\<exists>k. k \<le> 20 \<and>
        map_option totalWifiNetworks (loop sameDayEnv ninthScanState) = Some (1 + of_nat k))"
proof -
  note t = cycle_reset_frame [where e = sameDayEnv and s = ninthScanState
      and s' = "resetCycle (reportAnalytics sameDayEnv
         ((performWiFiScan (WiFi sameDayEnv) ninthScanState)\<lparr>lastScanTime := millis sameDayEnv,
            scanCounter := scanCounter ninthScanState + 1\<rparr>))"]
  have l: "loop sameDayEnv ninthScanState = Some (resetCycle (reportAnalytics sameDayEnv
         ((performWiFiScan (WiFi sameDayEnv) ninthScanState)\<lparr>lastScanTime := millis sameDayEnv,
            scanCounter := scanCounter ninthScanState + 1\<rparr>)))"
    by (rule loop_cycle_end) (simp_all add: SCAN_INTERVAL_MS_def SCANS_PER_UPLOAD_def)
  have c: "case loop sameDayEnv ninthScanState of
          None \<Rightarrow> False
        | Some s' \<Rightarrow>
            wifiNetworksThisCycle s' = 0 \<and> repeatedWifiNetworks s' = 0
            \<and> uniqueWifiNetworks s' = 0 \<and> impressionCount s' = 0 \<and> scanCounter s' = 0
            \<and> totalWifiNetworks s' = 2
            \<and> totalScansPerformed s' = 10
            \<and> totalReportsGenerated s' = 1"
    using t [THEN conjunct2, THEN conjunct2, THEN conjunct2, THEN conjunct2, THEN conjunct2,
        THEN conjunct2, THEN conjunct2, THEN conjunct2, THEN conjunct1, THEN mp]
    by (simp add: SCAN_INTERVAL_MS_def SCANS_PER_UPLOAD_def scan_macA_ninth
        split: option.splits)
  have n: "(\<exists>k\<le>20. totalWifiNetworks (resetCycle (reportAnalytics sameDayEnv
         ((performWiFiScan (WiFi sameDayEnv) ninthScanState)\<lparr>lastScanTime := millis sameDayEnv,
            scanCounter := scanCounter ninthScanState + 1\<rparr>)))
        = totalWifiNetworks ninthScanState + of_nat k)"
    using t [THEN conjunct2, THEN conjunct2, THEN conjunct2, THEN conjunct2, THEN conjunct2,
        THEN conjunct2, THEN conjunct2, THEN conjunct2, THEN conjunct2, THEN mp, OF l]
    by blast
  from n have m: "\<exists>k. k \<le> 20 \<and>
        map_option totalWifiNetworks (loop sameDayEnv ninthScanState) = Some (1 + of_nat k)"
    by (simp add: l)
  from c have "map_option wifiNetworksThisCycle (loop sameDayEnv ninthScanState) = Some 0
   \<and> map_option repeatedWifiNetworks (loop sameDayEnv ninthScanState) = Some 0
   \<and> map_option uniqueWifiNetworks (loop sameDayEnv ninthScanState) = Some 0
   \<and> map_option impressionCount (loop sameDayEnv ninthScanState) = Some 0
   \<and> map_option scanCounter (loop sameDayEnv ninthScanState) = Some 0
   \<and> map_option totalWifiNetworks (loop sameDayEnv ninthScanState) = Some 2
   \<and> map_option totalScansPerformed (loop sameDayEnv ninthScanState) = Some 10
   \<and> map_option totalReportsGenerated (loop sameDayEnv ninthScanState) = Some 1"
    by (simp split: option.splits)
  with m show ?thesis by (elim conjE) (intro conjI; assumption)
qed

subsection \<open>The daily tally within a date\<close>



subsection \<open>The anonymiser\<close>



subsection \<open>Two generations of memory\<close>



end
